theory Spec2Isabelle
  imports Complex_Main
begin

unbundle bit_operations_syntax

section \<open>Machine integers of the header\<close>

text \<open>
  The header computes on \<^verbatim>\<open>int\<close> (32 bits) and \<^verbatim>\<open>long long int\<close> (64 bits).
  Both are modelled as \<^typ>\<open>int\<close> with the two's-complement wrap-around written out:
  every arithmetic result that the source stores in an \<^verbatim>\<open>int\<close> goes through
  \<open>wrap32\<close>, every \<^verbatim>\<open>long long\<close> result through \<open>wrap64\<close>.  Right shift of a
  signed value is arithmetic (C++20), which on \<^typ>\<open>int\<close> is \<^const>\<open>drop_bit\<close>.
  Shift counts are \<^verbatim>\<open>int\<close> in the source; a count outside the width of the
  shifted type is undefined there and no theorem below relies on it.
\<close>

definition wrap32 :: "int \<Rightarrow> int" where
  "wrap32 x = signed_take_bit 31 x"

definition wrap64 :: "int \<Rightarrow> int" where
  "wrap64 x = signed_take_bit 63 x"

definition shl32 :: "int \<Rightarrow> int \<Rightarrow> int" where
  \<comment> \<open>\<^verbatim>\<open>val << n\<close> on \<^verbatim>\<open>int\<close>\<close>
  "shl32 val n = wrap32 (push_bit (nat n) val)"

definition shl64 :: "int \<Rightarrow> int \<Rightarrow> int" where
  \<comment> \<open>\<^verbatim>\<open>val << n\<close> on \<^verbatim>\<open>long long int\<close>\<close>
  "shl64 val n = wrap64 (push_bit (nat n) val)"

definition shr64 :: "int \<Rightarrow> int \<Rightarrow> int" where
  \<comment> \<open>\<^verbatim>\<open>val >> n\<close> on \<^verbatim>\<open>long long int\<close>\<close>
  "shr64 val n = drop_bit (nat n) val"

definition cdiv :: "int \<Rightarrow> int \<Rightarrow> int" where
  \<comment> \<open>C++ \<^verbatim>\<open>/\<close> on integers: the quotient is truncated toward zero\<close>
  "cdiv a b = sgn a * sgn b * (\<bar>a\<bar> div \<bar>b\<bar>)"

definition shiftRight :: "int \<Rightarrow> int \<Rightarrow> int" where
  \<comment> \<open>\<^verbatim>\<open>shifter<shift>::shiftRight\<close> and \<^verbatim>\<open>shiftRightDynamic\<close>, on \<^verbatim>\<open>long long\<close>\<close>
  "shiftRight shift val = (if shift \<ge> 0 then shr64 val shift else shl64 val (- shift))"

section \<open>Quantization policies\<close>

text \<open>
  \<^verbatim>\<open>RND::POS_INF .. RND::CONV\<close>, \<^verbatim>\<open>TRN::TCPL\<close>, \<^verbatim>\<open>TRN::SMGN\<close> carry the
  values 0 .. 6; \<^verbatim>\<open>SAT::TCPL\<close>, \<^verbatim>\<open>SAT::ZERO\<close>, \<^verbatim>\<open>SAT::SMGN\<close>, \<^verbatim>\<open>WRP::TCPL\<close>,
  \<^verbatim>\<open>WRP::TCPL_SAT<N>\<close> carry 0 .. 4.
\<close>

datatype QuMode = RND_POS_INF | RND_NEG_INF | RND_ZERO | RND_INF | RND_CONV | TRN_TCPL | TRN_SMGN

datatype OfMode = SAT_TCPL | SAT_ZERO | SAT_SMGN | WRP_TCPL | WRP_TCPL_SAT

fun QuMode_value :: "QuMode \<Rightarrow> int" where
  "QuMode_value RND_POS_INF = 0"
| "QuMode_value RND_NEG_INF = 1"
| "QuMode_value RND_ZERO = 2"
| "QuMode_value RND_INF = 3"
| "QuMode_value RND_CONV = 4"
| "QuMode_value TRN_TCPL = 5"
| "QuMode_value TRN_SMGN = 6"

fun OfMode_value :: "OfMode \<Rightarrow> int" where
  "OfMode_value SAT_TCPL = 0"
| "OfMode_value SAT_ZERO = 1"
| "OfMode_value SAT_SMGN = 2"
| "OfMode_value WRP_TCPL = 3"
| "OfMode_value WRP_TCPL_SAT = 4"

datatype error =
    StaticAssertTotalBits  \<comment> \<open>\<^verbatim>\<open>static_assert\<close> of \<^verbatim>\<open>Qu_s\<close>: total bits not in 0 .. 31\<close>
  | InvalidQuMode          \<comment> \<open>\<^verbatim>\<open>std::runtime_error("Invalid QuMode")\<close>\<close>
  | InvalidOfMode          \<comment> \<open>\<^verbatim>\<open>std::runtime_error("Invalid OfMode")\<close>\<close>
  | ComingSoon             \<comment> \<open>\<^verbatim>\<open>std::runtime_error("Very cool, coming soon")\<close>\<close>
  | DivisionTrap           \<comment> \<open>integer division whose divisor is 0 or whose quotient does not fit\<close>
  | StaticAssertShape      \<comment> \<open>a kernel's \<^verbatim>\<open>static_assert\<close> on the tensor shapes\<close>
  | NoInstantiation        \<comment> \<open>no template specialization fits the call: it does not compile\<close>

section \<open>Casting algebra\<close>

subsection \<open>Fractional alignment\<close>

definition frac_floor :: "int \<Rightarrow> int \<Rightarrow> int" where
  \<comment> \<open>\<^verbatim>\<open>mask = 0 - (1 << d)\<close> (an \<^verbatim>\<open>int\<close>, sign-extended to 64 bits); \<^verbatim>\<open>floor = val & mask\<close>\<close>
  "frac_floor d val = val AND wrap32 (0 - shl32 1 d)"

definition frac_ceil :: "int \<Rightarrow> int \<Rightarrow> int" where
  \<comment> \<open>\<^verbatim>\<open>ceil = floor + (1 << d)\<close>\<close>
  "frac_ceil d val = wrap64 (frac_floor d val + shl32 1 d)"

fun fracConvert :: "QuMode \<Rightarrow> int \<Rightarrow> int \<Rightarrow> int \<Rightarrow> int" where
  "fracConvert RND_POS_INF fromFrac toFrac val =
     (if fromFrac \<le> toFrac then shl64 val (toFrac - fromFrac)
      else let floor = frac_floor (fromFrac - toFrac) val;
               ceil = frac_ceil (fromFrac - toFrac) val
           in shr64 (if wrap64 (val - floor) < wrap64 (ceil - val) then floor else ceil)
                (fromFrac - toFrac))"
| "fracConvert RND_NEG_INF fromFrac toFrac val =
     (if fromFrac \<le> toFrac then shl64 val (toFrac - fromFrac)
      else let floor = frac_floor (fromFrac - toFrac) val;
               ceil = frac_ceil (fromFrac - toFrac) val
           in shr64 (if wrap64 (val - floor) \<le> wrap64 (ceil - val) then floor else ceil)
                (fromFrac - toFrac))"
| "fracConvert RND_ZERO fromFrac toFrac val =
     (if fromFrac \<le> toFrac then shl64 val (toFrac - fromFrac)
      else let floor = frac_floor (fromFrac - toFrac) val;
               ceil = frac_ceil (fromFrac - toFrac) val
           in if wrap64 (floor + ceil) > 0 then shr64 floor (fromFrac - toFrac)
              else shr64 ceil (fromFrac - toFrac))"
| "fracConvert RND_INF fromFrac toFrac val =
     (if fromFrac \<le> toFrac then shl64 val (toFrac - fromFrac)
      else let floor = frac_floor (fromFrac - toFrac) val;
               ceil = frac_ceil (fromFrac - toFrac) val
           in if wrap64 (floor + ceil) < 0 then shr64 floor (fromFrac - toFrac)
              else shr64 ceil (fromFrac - toFrac))"
| "fracConvert RND_CONV fromFrac toFrac val =
     (if fromFrac \<le> toFrac then shl64 val (toFrac - fromFrac)
      else let floor = frac_floor (fromFrac - toFrac) val;
               ceil = frac_ceil (fromFrac - toFrac) val
           in if wrap64 (floor + ceil) = shl64 val 1
              then (if floor AND shl32 1 (fromFrac - toFrac) \<noteq> 0
                    then shr64 ceil (fromFrac - toFrac)
                    else shr64 floor (fromFrac - toFrac))
              else if wrap64 (val - floor) < wrap64 (ceil - val)
                   then shr64 floor (fromFrac - toFrac)
                   else shr64 ceil (fromFrac - toFrac))"
| "fracConvert TRN_TCPL fromFrac toFrac val = shiftRight (fromFrac - toFrac) val"
| "fracConvert TRN_SMGN fromFrac toFrac val =
     (if fromFrac < toFrac then shl64 val (toFrac - fromFrac)
      else if val \<ge> 0 then shr64 val (fromFrac - toFrac)
      else wrap64 (- shr64 (wrap64 (- val)) (fromFrac - toFrac)))"

text \<open>
  \<^verbatim>\<open>fracConvertDynamic\<close> switches on the integer tag; the body of each \<^verbatim>\<open>case\<close> is
  the body of the static specialization of the same mode, and any other tag throws.
\<close>

definition fracConvertDynamic :: "int \<Rightarrow> int \<Rightarrow> int \<Rightarrow> int \<Rightarrow> error + int" where
  "fracConvertDynamic val fromFrac toFrac QuModeTag =
     (if QuModeTag = 0 then Inr (fracConvert RND_POS_INF fromFrac toFrac val)
      else if QuModeTag = 1 then Inr (fracConvert RND_NEG_INF fromFrac toFrac val)
      else if QuModeTag = 2 then Inr (fracConvert RND_ZERO fromFrac toFrac val)
      else if QuModeTag = 3 then Inr (fracConvert RND_INF fromFrac toFrac val)
      else if QuModeTag = 4 then Inr (fracConvert RND_CONV fromFrac toFrac val)
      else if QuModeTag = 5 then Inr (fracConvert TRN_TCPL fromFrac toFrac val)
      else if QuModeTag = 6 then Inr (fracConvert TRN_SMGN fromFrac toFrac val)
      else Inl InvalidQuMode)"

subsection \<open>Integer clamping\<close>

definition maxVal :: "int \<Rightarrow> int \<Rightarrow> int" where
  \<comment> \<open>\<^verbatim>\<open>static_cast<long long int>((1ULL << (toInt + toFrac)) - 1)\<close>\<close>
  "maxVal toInt toFrac = wrap64 (take_bit 64 (push_bit (nat (toInt + toFrac)) 1 - 1))"

definition minVal :: "int \<Rightarrow> int \<Rightarrow> bool \<Rightarrow> int" where
  \<comment> \<open>\<^verbatim>\<open>toIsSigned ? -maxVal - 1 : 0\<close>\<close>
  "minVal toInt toFrac toIsSigned =
     (if toIsSigned then wrap64 (wrap64 (- maxVal toInt toFrac) - 1) else 0)"

definition wrp_mask :: "int \<Rightarrow> int" where
  \<comment> \<open>\<^verbatim>\<open>(1ULL << n) - 1\<close>, an unsigned 64-bit value\<close>
  "wrp_mask n = take_bit 64 (push_bit (nat n) 1 - 1)"

fun intConvert :: "OfMode \<Rightarrow> int \<Rightarrow> int \<Rightarrow> bool \<Rightarrow> int \<Rightarrow> error + int" where
  "intConvert SAT_TCPL toInt toFrac toIsSigned val =
     Inr (wrap32 (min (max val (minVal toInt toFrac toIsSigned)) (maxVal toInt toFrac)))"
| "intConvert SAT_ZERO toInt toFrac toIsSigned val =
     (if val > maxVal toInt toFrac \<or> val < minVal toInt toFrac toIsSigned then Inr 0
      else Inr (wrap32 val))"
| "intConvert SAT_SMGN toInt toFrac toIsSigned val =
     Inr (wrap32 (min (max val (wrap64 (minVal toInt toFrac toIsSigned + 1))) (maxVal toInt toFrac)))"
| "intConvert WRP_TCPL toInt toFrac toIsSigned val =
     (if toIsSigned
      then let mask = wrp_mask (toInt + toFrac + 1);
               maskedVal = take_bit 64 val AND mask
           in if drop_bit (nat (toInt + toFrac)) maskedVal \<noteq> 0
              then Inr (wrap32 (maskedVal OR take_bit 64 (NOT mask)))
              else Inr (wrap32 maskedVal)
      else Inr (wrap32 (take_bit 64 val AND wrp_mask (toInt + toFrac))))"
| "intConvert WRP_TCPL_SAT toInt toFrac toIsSigned val = Inl ComingSoon"

definition intConvertDynamic :: "int \<Rightarrow> int \<Rightarrow> int \<Rightarrow> bool \<Rightarrow> int \<Rightarrow> error + int" where
  "intConvertDynamic val toInt toFrac toIsSigned OfModeTag =
     (if OfModeTag = 0 then intConvert SAT_TCPL toInt toFrac toIsSigned val
      else if OfModeTag = 1 then intConvert SAT_ZERO toInt toFrac toIsSigned val
      else if OfModeTag = 2 then intConvert SAT_SMGN toInt toFrac toIsSigned val
      else if OfModeTag = 3 then intConvert WRP_TCPL toInt toFrac toIsSigned val
      else Inl InvalidOfMode)"

section \<open>Scalar fixed-point values\<close>

text \<open>
  A static \<^verbatim>\<open>Qu_s<intBits<i>, fracBits<f>, isSigned<s>, QuMode<q>, OfMode<o>>\<close> is a
  format fixed at compile time and one \<^verbatim>\<open>int data\<close>.  Instantiating the class checks
  \<^verbatim>\<open>static_assert(0 <= i + f && i + f <= 31)\<close>; a failed instantiation is the error
  \<open>StaticAssertTotalBits\<close> of the operation that needs the type.
\<close>

record fmt =
  intB :: int
  fracB :: int
  isS :: bool
  QuM :: QuMode
  OfM :: OfMode

record Qu_s =
  fmt_of :: fmt
  data :: int

definition Qu_s_static_assert :: "fmt \<Rightarrow> bool" where
  "Qu_s_static_assert F = (0 \<le> intB F + fracB F \<and> intB F + fracB F \<le> 31)"

definition Qu_s_direct :: "fmt \<Rightarrow> int \<Rightarrow> error + Qu_s" where
  \<comment> \<open>\<^verbatim>\<open>Qu_s(auto val, DirectAssignTag) : data(val)\<close>\<close>
  "Qu_s_direct F val =
     (if Qu_s_static_assert F then Inr \<lparr>fmt_of = F, data = wrap32 val\<rparr>
      else Inl StaticAssertTotalBits)"

definition trunc_real :: "real \<Rightarrow> int" where
  \<comment> \<open>\<^verbatim>\<open>static_cast<long long int>\<close> of a \<^verbatim>\<open>double\<close>: the fraction is discarded\<close>
  "trunc_real x = (if x \<ge> 0 then \<lfloor>x\<rfloor> else \<lceil>x\<rceil>)"

definition shifter_input :: "int \<Rightarrow> real \<Rightarrow> int" where
  \<comment> \<open>\<^verbatim>\<open>shifter<shift>::input\<close> and \<^verbatim>\<open>inputDynamic\<close>.  The source multiplies in
      \<^verbatim>\<open>double\<close>; the model multiplies exact reals, which is the same number whenever
      \<^verbatim>\<open>val\<close> times the power of two is representable in binary64.\<close>
  "shifter_input shift val =
     (if shift \<ge> 0 then wrap64 (trunc_real (val * real_of_int (shl32 1 shift)))
      else if val < real_of_int (shl32 1 (- shift))
      then shr64 (wrap64 (trunc_real ((val * real_of_int (shl32 1 (- shift)))
                                        / real_of_int (shl32 1 (- shift))))) (- shift)
      else wrap64 (trunc_real (val / real_of_int (shl32 1 (- shift)))))"

definition Qu_s_of_real :: "fmt \<Rightarrow> real \<Rightarrow> error + Qu_s" where
  \<comment> \<open>the constructor \<^verbatim>\<open>Qu_s(T val)\<close> from an arithmetic value\<close>
  "Qu_s_of_real F val =
     (if \<not> Qu_s_static_assert F then Inl StaticAssertTotalBits
      else let longVal = shifter_input (fracB F) val;
               longVal2 = fracConvert (QuM F) (fracB F) (fracB F) longVal
           in case intConvert (OfM F) (intB F) (fracB F) (isS F) longVal2 of
                Inl e \<Rightarrow> Inl e
              | Inr d \<Rightarrow> Inr \<lparr>fmt_of = F, data = d\<rparr>)"

definition Qu_s_from :: "fmt \<Rightarrow> Qu_s \<Rightarrow> error + Qu_s" where
  \<comment> \<open>the converting constructor and \<^verbatim>\<open>assign\<close> from another static value\<close>
  "Qu_s_from F val =
     (if \<not> Qu_s_static_assert F then Inl StaticAssertTotalBits
      else if intB (fmt_of val) = intB F \<and> fracB (fmt_of val) = fracB F \<and> isS (fmt_of val) = isS F
      then Inr \<lparr>fmt_of = F, data = data val\<rparr>
      else case intConvert (OfM F) (intB F) (fracB F) (isS F)
                  (fracConvert (QuM F) (fracB (fmt_of val)) (fracB F) (data val)) of
             Inl e \<Rightarrow> Inl e
           | Inr d \<Rightarrow> Inr \<lparr>fmt_of = F, data = d\<rparr>)"

definition toDouble :: "Qu_s \<Rightarrow> real" where
  \<comment> \<open>\<^verbatim>\<open>shifter<fracB>::toDouble(data)\<close>, the real view of the value\<close>
  "toDouble x =
     (if fracB (fmt_of x) \<ge> 0 then real_of_int (data x) / real_of_int (shl32 1 (fracB (fmt_of x)))
      else real_of_int (data x) * real_of_int (shl32 1 (- fracB (fmt_of x))))"

text \<open>
  The dynamic variant \<^verbatim>\<open>Qu_s<QuDynamic>\<close> carries its format in the object; the two
  modes are the integer tags.
\<close>

record QuDynamic =
  intB_d :: int
  fracB_d :: int
  isS_d :: bool
  QuM_d :: int
  OfM_d :: int
  data_d :: int

definition QuDynamic_of :: "Qu_s \<Rightarrow> QuDynamic" where
  \<comment> \<open>\<^verbatim>\<open>Qu_s<QuDynamic>(const Qu_s<Args...> &val)\<close>: format and data are copied\<close>
  "QuDynamic_of val =
     \<lparr>intB_d = intB (fmt_of val), fracB_d = fracB (fmt_of val), isS_d = isS (fmt_of val),
      QuM_d = QuMode_value (QuM (fmt_of val)), OfM_d = OfMode_value (OfM (fmt_of val)),
      data_d = data val\<rparr>"

definition toDoubleDynamic :: "QuDynamic \<Rightarrow> real" where
  "toDoubleDynamic x =
     (if fracB_d x \<ge> 0 then real_of_int (data_d x) / real_of_int (shl32 1 (fracB_d x))
      else real_of_int (data_d x) * real_of_int (shl32 1 (- fracB_d x)))"

section \<open>Policy bundles and the merger rules\<close>

text \<open>
  The template arguments a caller passes to a primitive: the tags, \<^verbatim>\<open>FullPrec\<close>, a
  static \<^verbatim>\<open>Qu_s\<close> type used as a bundle, a \<^verbatim>\<open>TypeList\<close>, or \<^verbatim>\<open>std::nullptr_t\<close>.
\<close>

datatype targ =
    intBits int
  | fracBits int
  | isSigned bool
  | QuModeTag QuMode
  | OfModeTag OfMode
  | FullPrec
  | QuType fmt
  | TypeList "targ list"
  | nullptr_t

fun MergerArgsWrapper :: "targ list \<Rightarrow> targ list" where
  "MergerArgsWrapper [TypeList args] = []"
| "MergerArgsWrapper [QuType F] =
     [intBits (intB F), fracBits (fracB F), isSigned (isS F), QuModeTag (QuM F), OfModeTag (OfM F)]"
| "MergerArgsWrapper args = args"

fun tagExtractor_intBits :: "int \<Rightarrow> targ list \<Rightarrow> int" where
  "tagExtractor_intBits dflt [] = dflt"
| "tagExtractor_intBits dflt (intBits v # args) = v"
| "tagExtractor_intBits dflt (a # args) = tagExtractor_intBits dflt args"

fun tagExtractor_fracBits :: "int \<Rightarrow> targ list \<Rightarrow> int" where
  "tagExtractor_fracBits dflt [] = dflt"
| "tagExtractor_fracBits dflt (fracBits v # args) = v"
| "tagExtractor_fracBits dflt (a # args) = tagExtractor_fracBits dflt args"

fun tagExtractor_isSigned :: "bool \<Rightarrow> targ list \<Rightarrow> bool" where
  "tagExtractor_isSigned dflt [] = dflt"
| "tagExtractor_isSigned dflt (isSigned v # args) = v"
| "tagExtractor_isSigned dflt (a # args) = tagExtractor_isSigned dflt args"

fun tagExtractor_QuMode :: "QuMode \<Rightarrow> targ list \<Rightarrow> QuMode" where
  "tagExtractor_QuMode dflt [] = dflt"
| "tagExtractor_QuMode dflt (QuModeTag v # args) = v"
| "tagExtractor_QuMode dflt (a # args) = tagExtractor_QuMode dflt args"

fun tagExtractor_OfMode :: "OfMode \<Rightarrow> targ list \<Rightarrow> OfMode" where
  "tagExtractor_OfMode dflt [] = dflt"
| "tagExtractor_OfMode dflt (OfModeTag v # args) = v"
| "tagExtractor_OfMode dflt (a # args) = tagExtractor_OfMode dflt args"

definition fullPrecision :: "targ list \<Rightarrow> bool" where
  \<comment> \<open>\<^verbatim>\<open>(std::is_same_v<FullPrec, toArgs> || ...)\<close>\<close>
  "fullPrecision toArgs = list_ex (\<lambda>a. a = FullPrec) toArgs"

definition defaultIntBits :: int where "defaultIntBits = 12"
definition defaultFracBits :: int where "defaultFracBits = 12"
definition defaultIsSigned :: bool where "defaultIsSigned = True"
definition defaultQuMode :: QuMode where "defaultQuMode = TRN_TCPL"
definition defaultOfMode :: OfMode where "defaultOfMode = SAT_TCPL"

definition capInt :: "int \<Rightarrow> int \<Rightarrow> int" where
  \<comment> \<open>\<^verbatim>\<open>toInt + toFrac > 31 ? toInt - (toInt + toFrac - 31 + 1) / 2 : toInt\<close>\<close>
  "capInt toInt toFrac =
     (if toInt + toFrac > 31 then toInt - cdiv (toInt + toFrac - 31 + 1) 2 else toInt)"

definition capFrac :: "int \<Rightarrow> int \<Rightarrow> int" where
  \<comment> \<open>\<^verbatim>\<open>toFrac + toInt > 31 ? toFrac - (toInt + toFrac - 31 + 1) / 2 : toFrac\<close>\<close>
  "capFrac toInt toFrac =
     (if toFrac + toInt > 31 then toFrac - cdiv (toInt + toFrac - 31 + 1) 2 else toFrac)"

record merger =
  toInt :: int
  toFrac :: int
  toIsSigned :: bool
  toQuMode :: QuMode
  toOfMode :: OfMode
  toIntFinal :: int
  toFracFinal :: int

definition MulMerger :: "fmt \<Rightarrow> fmt \<Rightarrow> targ list \<Rightarrow> merger" where
  "MulMerger F1 F2 toArgs =
     (let fromQuMode = (if QuM F1 = QuM F2 then QuM F1 else defaultQuMode);
          fromOfMode = (if OfM F1 = OfM F2 then OfM F1 else defaultOfMode);
          ti = tagExtractor_intBits
                 (if fullPrecision toArgs then intB F1 + intB F2 else max (intB F1) (intB F2)) toArgs;
          tf = tagExtractor_fracBits
                 (if fullPrecision toArgs then fracB F1 + fracB F2 else max (fracB F1) (fracB F2)) toArgs
      in \<lparr>toInt = ti, toFrac = tf,
          toIsSigned = tagExtractor_isSigned (isS F1 \<or> isS F2) toArgs,
          toQuMode = tagExtractor_QuMode fromQuMode toArgs,
          toOfMode = tagExtractor_OfMode fromOfMode toArgs,
          toIntFinal = capInt ti tf, toFracFinal = capFrac ti tf\<rparr>)"

definition AddMerger :: "fmt \<Rightarrow> fmt \<Rightarrow> targ list \<Rightarrow> merger" where
  "AddMerger F1 F2 toArgs =
     (let fromQuMode = (if QuM F1 = QuM F2 then QuM F1 else defaultQuMode);
          fromOfMode = (if OfM F1 = OfM F2 then OfM F1 else defaultOfMode);
          ti = tagExtractor_intBits
                 (if fullPrecision toArgs then max (intB F1) (intB F2) + 1 else max (intB F1) (intB F2)) toArgs;
          tf = tagExtractor_fracBits (max (fracB F1) (fracB F2)) toArgs
      in \<lparr>toInt = ti, toFrac = tf,
          toIsSigned = tagExtractor_isSigned (isS F1 \<or> isS F2) toArgs,
          toQuMode = tagExtractor_QuMode fromQuMode toArgs,
          toOfMode = tagExtractor_OfMode fromOfMode toArgs,
          toIntFinal = capInt ti tf, toFracFinal = capFrac ti tf\<rparr>)"

definition resType :: "merger \<Rightarrow> fmt" where
  \<comment> \<open>\<^verbatim>\<open>merger::resType\<close>, built from \<^verbatim>\<open>toIntFinal\<close> and \<^verbatim>\<open>toFracFinal\<close>\<close>
  "resType m = \<lparr>intB = toIntFinal m, fracB = toFracFinal m, isS = toIsSigned m,
                QuM = toQuMode m, OfM = toOfMode m\<rparr>"

definition retType :: "merger \<Rightarrow> fmt" where
  \<comment> \<open>the type the static primitives return, built from \<^verbatim>\<open>merger::toInt\<close> and
      \<^verbatim>\<open>merger::toFrac\<close>\<close>
  "retType m = \<lparr>intB = toInt m, fracB = toFrac m, isS = toIsSigned m,
                QuM = toQuMode m, OfM = toOfMode m\<rparr>"

section \<open>Primitive arithmetic on static scalars\<close>

definition Qmul_s_mul :: "targ list \<Rightarrow> Qu_s \<Rightarrow> Qu_s \<Rightarrow> error + Qu_s" where
  "Qmul_s_mul toArgs f1 f2 =
     (let m = MulMerger (fmt_of f1) (fmt_of f2) toArgs
      in if \<not> Qu_s_static_assert (retType m) then Inl StaticAssertTotalBits
         else let fullProduct = wrap64 (data f1 * data f2);
                  fracProduct = fracConvert (toQuMode m) (fracB (fmt_of f1) + fracB (fmt_of f2))
                                  (toFrac m) fullProduct
              in case intConvert (toOfMode m) (toInt m) (toFrac m) (toIsSigned m) fracProduct of
                   Inl e \<Rightarrow> Inl e
                 | Inr intProduct \<Rightarrow> Qu_s_direct (retType m) intProduct)"

definition shiftA :: "int \<Rightarrow> int \<Rightarrow> int" where
  \<comment> \<open>\<^verbatim>\<open>fromFrac2 > fromFrac1 ? fromFrac2 - fromFrac1 : 0\<close>\<close>
  "shiftA fromFrac1 fromFrac2 = (if fromFrac2 > fromFrac1 then fromFrac2 - fromFrac1 else 0)"

definition shiftB :: "int \<Rightarrow> int \<Rightarrow> int" where
  \<comment> \<open>\<^verbatim>\<open>fromFrac1 > fromFrac2 ? fromFrac1 - fromFrac2 : 0\<close>\<close>
  "shiftB fromFrac1 fromFrac2 = (if fromFrac1 > fromFrac2 then fromFrac1 - fromFrac2 else 0)"

definition Qadd_s_add :: "targ list \<Rightarrow> Qu_s \<Rightarrow> Qu_s \<Rightarrow> error + Qu_s" where
  "Qadd_s_add toArgs f1 f2 =
     (let m = AddMerger (fmt_of f1) (fmt_of f2) toArgs
      in if \<not> Qu_s_static_assert (retType m) then Inl StaticAssertTotalBits
         else let fullSum = wrap64 (shl32 (data f1) (shiftA (fracB (fmt_of f1)) (fracB (fmt_of f2)))
                                   + shl32 (data f2) (shiftB (fracB (fmt_of f1)) (fracB (fmt_of f2))));
                  fracSum = fracConvert (toQuMode m) (max (fracB (fmt_of f1)) (fracB (fmt_of f2)))
                              (toFrac m) fullSum
              in case intConvert (toOfMode m) (toInt m) (toFrac m) (toIsSigned m) fracSum of
                   Inl e \<Rightarrow> Inl e
                 | Inr intSum \<Rightarrow> Qu_s_direct (retType m) intSum)"

fun head_is_Qu :: "targ list \<Rightarrow> bool" where
  \<comment> \<open>\<^verbatim>\<open>isA<typename TypeList<toArgs...>::head, Qu_s<>>\<close>\<close>
  "head_is_Qu (QuType F # args) = True"
| "head_is_Qu args = False"

definition Qsub_s_sub :: "targ list \<Rightarrow> Qu_s \<Rightarrow> Qu_s \<Rightarrow> error + Qu_s" where
  "Qsub_s_sub toArgs f1 f2 =
     (let m = AddMerger (fmt_of f1) (fmt_of f2) toArgs
      in if head_is_Qu toArgs then Inl NoInstantiation
         else if \<not> Qu_s_static_assert (retType m) then Inl StaticAssertTotalBits
         else let fullDiff = wrap64 (shl32 (data f1) (shiftA (fracB (fmt_of f1)) (fracB (fmt_of f2)))
                                    - shl32 (data f2) (shiftB (fracB (fmt_of f1)) (fracB (fmt_of f2))));
                  fracDiff = fracConvert (toQuMode m) (max (fracB (fmt_of f1)) (fracB (fmt_of f2)))
                               (toFrac m) fullDiff
              in case intConvert (toOfMode m) (toInt m) (toFrac m) (toIsSigned m) fracDiff of
                   Inl e \<Rightarrow> Inl e
                 | Inr intDiff \<Rightarrow> Qu_s_direct (retType m) intDiff)"

definition div64 :: "int \<Rightarrow> int \<Rightarrow> error + int" where
  \<comment> \<open>\<^verbatim>\<open>/\<close> on \<^verbatim>\<open>long long\<close>: a zero divisor, and the one quotient that does not fit,
      are undefined in C++ and trap on the usual targets\<close>
  "div64 a b =
     (if b = 0 \<or> (a = - (2 ^ 63) \<and> b = - 1) then Inl DivisionTrap else Inr (cdiv a b))"

definition Qdiv_s_div :: "targ list \<Rightarrow> Qu_s \<Rightarrow> Qu_s \<Rightarrow> error + Qu_s" where
  "Qdiv_s_div toArgs f1 f2 =
     (let m = AddMerger (fmt_of f1) (fmt_of f2) toArgs
      in if head_is_Qu toArgs then Inl NoInstantiation
         else if \<not> Qu_s_static_assert (retType m) then Inl StaticAssertTotalBits
         else if data f2 = 0 then Qu_s_direct (retType m) 0
         else case div64 (shl64 (shl64 (data f1) (shiftA (fracB (fmt_of f1)) (fracB (fmt_of f2))))
                            (toFrac m))
                         (shl64 (data f2) (shiftB (fracB (fmt_of f1)) (fracB (fmt_of f2)))) of
                Inl e \<Rightarrow> Inl e
              | Inr fullQuotient \<Rightarrow>
                  (case intConvert (toOfMode m) (toInt m) (toFrac m) (toIsSigned m) fullQuotient of
                     Inl e \<Rightarrow> Inl e
                   | Inr intQuotient \<Rightarrow> Qu_s_direct (retType m) intQuotient))"

text \<open>The entry points \<^verbatim>\<open>Qmul<toArgs...>(f1, f2)\<close> etc. on scalars.\<close>

definition Qmul :: "targ list \<Rightarrow> Qu_s \<Rightarrow> Qu_s \<Rightarrow> error + Qu_s" where
  "Qmul toArgs f1 f2 = Qmul_s_mul (MergerArgsWrapper toArgs) f1 f2"

definition Qadd :: "targ list \<Rightarrow> Qu_s \<Rightarrow> Qu_s \<Rightarrow> error + Qu_s" where
  "Qadd toArgs f1 f2 = Qadd_s_add (MergerArgsWrapper toArgs) f1 f2"

definition Qsub :: "targ list \<Rightarrow> Qu_s \<Rightarrow> Qu_s \<Rightarrow> error + Qu_s" where
  "Qsub toArgs f1 f2 = Qsub_s_sub (MergerArgsWrapper toArgs) f1 f2"

definition Qdiv :: "targ list \<Rightarrow> Qu_s \<Rightarrow> Qu_s \<Rightarrow> error + Qu_s" where
  "Qdiv toArgs f1 f2 = Qdiv_s_div (MergerArgsWrapper toArgs) f1 f2"

section \<open>Primitive arithmetic when an operand is dynamic\<close>

fun is_intBits :: "targ \<Rightarrow> bool" where
  "is_intBits (intBits v) = True" | "is_intBits a = False"

fun is_fracBits :: "targ \<Rightarrow> bool" where
  "is_fracBits (fracBits v) = True" | "is_fracBits a = False"

fun is_isSigned :: "targ \<Rightarrow> bool" where
  "is_isSigned (isSigned v) = True" | "is_isSigned a = False"

fun is_QuMode :: "targ \<Rightarrow> bool" where
  "is_QuMode (QuModeTag v) = True" | "is_QuMode a = False"

fun is_OfMode :: "targ \<Rightarrow> bool" where
  "is_OfMode (OfModeTag v) = True" | "is_OfMode a = False"

definition dyn_toQuMode :: "targ list \<Rightarrow> int \<Rightarrow> int \<Rightarrow> int" where
  \<comment> \<open>\<^verbatim>\<open>hasQuMode ? toArgQuMode : fromQuMode1 == fromQuMode2 ? fromQuMode1 : defaultQuMode::value\<close>\<close>
  "dyn_toQuMode toArgs fromQuMode1 fromQuMode2 =
     (if list_ex is_QuMode toArgs then QuMode_value (tagExtractor_QuMode defaultQuMode toArgs)
      else if fromQuMode1 = fromQuMode2 then fromQuMode1 else QuMode_value defaultQuMode)"

definition dyn_toOfMode :: "targ list \<Rightarrow> int \<Rightarrow> int \<Rightarrow> int" where
  "dyn_toOfMode toArgs fromOfMode1 fromOfMode2 =
     (if list_ex is_OfMode toArgs then OfMode_value (tagExtractor_OfMode defaultOfMode toArgs)
      else if fromOfMode1 = fromOfMode2 then fromOfMode1 else OfMode_value defaultOfMode)"

definition dyn_toIsSigned :: "targ list \<Rightarrow> bool \<Rightarrow> bool \<Rightarrow> bool" where
  "dyn_toIsSigned toArgs s1 s2 =
     (if list_ex is_isSigned toArgs then tagExtractor_isSigned defaultIsSigned toArgs else (s1 \<or> s2))"

definition dyn_mul_toInt :: "targ list \<Rightarrow> int \<Rightarrow> int \<Rightarrow> int" where
  "dyn_mul_toInt toArgs fromInt1 fromInt2 =
     (if list_ex is_intBits toArgs then tagExtractor_intBits defaultIntBits toArgs
      else if fullPrecision toArgs then fromInt1 + fromInt2 else max fromInt1 fromInt2)"

definition dyn_mul_toFrac :: "targ list \<Rightarrow> int \<Rightarrow> int \<Rightarrow> int" where
  "dyn_mul_toFrac toArgs fromFrac1 fromFrac2 =
     (if list_ex is_fracBits toArgs then tagExtractor_fracBits defaultFracBits toArgs
      else if fullPrecision toArgs then fromFrac1 + fromFrac2 else max fromFrac1 fromFrac2)"

definition dyn_add_toInt :: "targ list \<Rightarrow> int \<Rightarrow> int \<Rightarrow> int" where
  "dyn_add_toInt toArgs fromInt1 fromInt2 =
     (if list_ex is_intBits toArgs then tagExtractor_intBits defaultIntBits toArgs
      else if fullPrecision toArgs then max fromInt1 fromInt2 + 1 else max fromInt1 fromInt2)"

definition dyn_add_toFrac :: "targ list \<Rightarrow> int \<Rightarrow> int \<Rightarrow> int" where
  "dyn_add_toFrac toArgs fromFrac1 fromFrac2 =
     (if list_ex is_fracBits toArgs then tagExtractor_fracBits defaultFracBits toArgs
      else max fromFrac1 fromFrac2)"

definition Qmul_dyn_mul :: "targ list \<Rightarrow> QuDynamic \<Rightarrow> QuDynamic \<Rightarrow> error + QuDynamic" where
  "Qmul_dyn_mul toArgs f1 f2 =
     (let ti = dyn_mul_toInt toArgs (intB_d f1) (intB_d f2);
          tf = dyn_mul_toFrac toArgs (fracB_d f1) (fracB_d f2);
          ts = dyn_toIsSigned toArgs (isS_d f1) (isS_d f2);
          tq = dyn_toQuMode toArgs (QuM_d f1) (QuM_d f2);
          to = dyn_toOfMode toArgs (OfM_d f1) (OfM_d f2);
          tiF = capInt ti tf;
          tfF = capFrac ti tf;
          fullProduct = wrap64 (data_d f1 * data_d f2)
      in case fracConvertDynamic fullProduct (fracB_d f1 + fracB_d f2) tfF tq of
           Inl e \<Rightarrow> Inl e
         | Inr fracProduct \<Rightarrow>
             (case intConvertDynamic fracProduct tiF tfF ts to of
                Inl e \<Rightarrow> Inl e
              | Inr d \<Rightarrow> Inr \<lparr>intB_d = tiF, fracB_d = tfF, isS_d = ts, QuM_d = tq, OfM_d = to,
                              data_d = d\<rparr>))"

definition Qadd_dyn_add :: "targ list \<Rightarrow> QuDynamic \<Rightarrow> QuDynamic \<Rightarrow> error + QuDynamic" where
  "Qadd_dyn_add toArgs f1 f2 =
     (let ti = dyn_add_toInt toArgs (intB_d f1) (intB_d f2);
          tf = dyn_add_toFrac toArgs (fracB_d f1) (fracB_d f2);
          ts = dyn_toIsSigned toArgs (isS_d f1) (isS_d f2);
          tq = dyn_toQuMode toArgs (QuM_d f1) (QuM_d f2);
          to = dyn_toOfMode toArgs (OfM_d f1) (OfM_d f2);
          tiF = capInt ti tf;
          tfF = capFrac ti tf;
          fullSum = wrap64 (shl32 (data_d f1) (shiftA (fracB_d f1) (fracB_d f2))
                           + shl32 (data_d f2) (shiftB (fracB_d f1) (fracB_d f2)))
      in case fracConvertDynamic fullSum (max (fracB_d f1) (fracB_d f2)) tfF tq of
           Inl e \<Rightarrow> Inl e
         | Inr fracSum \<Rightarrow>
             (case intConvertDynamic fracSum tiF tfF ts to of
                Inl e \<Rightarrow> Inl e
              | Inr d \<Rightarrow> Inr \<lparr>intB_d = tiF, fracB_d = tfF, isS_d = ts, QuM_d = tq, OfM_d = to,
                              data_d = d\<rparr>))"

definition Qsub_dyn_sub :: "targ list \<Rightarrow> QuDynamic \<Rightarrow> QuDynamic \<Rightarrow> error + QuDynamic" where
  "Qsub_dyn_sub toArgs f1 f2 =
     (let ti = dyn_add_toInt toArgs (intB_d f1) (intB_d f2);
          tf = dyn_add_toFrac toArgs (fracB_d f1) (fracB_d f2);
          ts = dyn_toIsSigned toArgs (isS_d f1) (isS_d f2);
          tq = dyn_toQuMode toArgs (QuM_d f1) (QuM_d f2);
          to = dyn_toOfMode toArgs (OfM_d f1) (OfM_d f2);
          tiF = capInt ti tf;
          tfF = capFrac ti tf;
          fullSum = wrap64 (shl32 (data_d f1) (shiftA (fracB_d f1) (fracB_d f2))
                           - shl32 (data_d f2) (shiftB (fracB_d f1) (fracB_d f2)))
      in case fracConvertDynamic fullSum (max (fracB_d f1) (fracB_d f2)) tfF tq of
           Inl e \<Rightarrow> Inl e
         | Inr fracSum \<Rightarrow>
             (case intConvertDynamic fracSum tiF tfF ts to of
                Inl e \<Rightarrow> Inl e
              | Inr d \<Rightarrow> Inr \<lparr>intB_d = tiF, fracB_d = tfF, isS_d = ts, QuM_d = tq, OfM_d = to,
                              data_d = d\<rparr>))"

definition Qdiv_dyn_div :: "targ list \<Rightarrow> QuDynamic \<Rightarrow> QuDynamic \<Rightarrow> error + QuDynamic" where
  "Qdiv_dyn_div toArgs f1 f2 =
     (let ti = dyn_add_toInt toArgs (intB_d f1) (intB_d f2);
          tf = dyn_add_toFrac toArgs (fracB_d f1) (fracB_d f2);
          ts = dyn_toIsSigned toArgs (isS_d f1) (isS_d f2);
          tq = dyn_toQuMode toArgs (QuM_d f1) (QuM_d f2);
          to = dyn_toOfMode toArgs (OfM_d f1) (OfM_d f2);
          tiF = capInt ti tf;
          tfF = capFrac ti tf
      in if data_d f2 = 0
         then Inr \<lparr>intB_d = tiF, fracB_d = tfF, isS_d = ts, QuM_d = tq, OfM_d = to, data_d = 0\<rparr>
         else case div64 (shl64 (shl64 (data_d f1) (shiftA (fracB_d f1) (fracB_d f2))) tfF)
                         (shl64 (data_d f2) (shiftB (fracB_d f1) (fracB_d f2))) of
                Inl e \<Rightarrow> Inl e
              | Inr fullQuotient \<Rightarrow>
                  (case intConvertDynamic fullQuotient tiF tfF ts to of
                     Inl e \<Rightarrow> Inl e
                   | Inr d \<Rightarrow> Inr \<lparr>intB_d = tiF, fracB_d = tfF, isS_d = ts, QuM_d = tq,
                                   OfM_d = to, data_d = d\<rparr>))"

section \<open>Tree reducer\<close>

definition ebind :: "error + 'a \<Rightarrow> ('a \<Rightarrow> error + 'b) \<Rightarrow> error + 'b" where
  \<comment> \<open>sequencing: the first failure ends the computation\<close>
  "ebind x f = (case x of Inl e \<Rightarrow> Inl e | Inr v \<Rightarrow> f v)"

definition ReducerInputHelper :: "targ list \<Rightarrow> targ list" where
  \<comment> \<open>\<^verbatim>\<open>ReducerInputHelper<TypeList<Args...>>\<close> unwraps a single \<^verbatim>\<open>TypeList\<close>\<close>
  "ReducerInputHelper Args = (case Args of [TypeList as] \<Rightarrow> as | _ \<Rightarrow> Args)"

definition ReducerTypeSelector :: "targ list \<Rightarrow> nat \<Rightarrow> targ" where
  \<comment> \<open>\<^verbatim>\<open>ReducerTypeSelector<sizeof...(Args) != 0, layer>::type\<close>\<close>
  "ReducerTypeSelector Args layer =
     (if Args \<noteq> [] then Args ! (if layer \<ge> length Args then length Args - 1 else layer)
      else nullptr_t)"

text \<open>
  \<^verbatim>\<open>Qadd<type>(packIndex<I * 2>(quants...), packIndex<I * 2 + 1>(quants...))...\<close> for
  \<^verbatim>\<open>I\<close> below half the count.  The reducer is a template over the scalar type, so
  the addition is a parameter.
\<close>

fun add_pairs :: "(targ list \<Rightarrow> 'a \<Rightarrow> 'a \<Rightarrow> error + 'a) \<Rightarrow> targ \<Rightarrow> 'a list \<Rightarrow> error + 'a list" where
  "add_pairs add type (x # y # rest) =
     ebind (add [type] x y) (\<lambda>s. ebind (add_pairs add type rest) (\<lambda>ss. Inr (s # ss)))"
| "add_pairs add type rest = Inr []"

lemma add_pairs_length: "add_pairs add type quants = Inr psums \<Longrightarrow> length psums = length quants div 2"
proof (induction add type quants arbitrary: psums rule: add_pairs.induct)
  case (1 add type x y rest)
  then show ?case
    by (auto simp: ebind_def split: sum.splits)
qed (auto simp: ebind_def)

function reduce_impl ::
  "(targ list \<Rightarrow> 'a \<Rightarrow> 'a \<Rightarrow> error + 'a) \<Rightarrow> targ list \<Rightarrow> nat \<Rightarrow> 'a list \<Rightarrow> error + 'a" where
  "reduce_impl add Args layer [] = Inl NoInstantiation"
| "reduce_impl add Args layer [q] = Inr q"
| "reduce_impl add Args layer (q1 # q2 # qs) =
     (case add_pairs add (ReducerTypeSelector Args layer) (q1 # q2 # qs) of
        Inl e \<Rightarrow> Inl e
      | Inr psums \<Rightarrow>
          if even (length (q1 # q2 # qs)) then reduce_impl add Args (layer + 1) psums
          else (case reduce_impl add Args (layer + 1) psums of
                  Inl e \<Rightarrow> Inl e
                | Inr res \<Rightarrow> add [ReducerTypeSelector Args layer] res (last (q1 # q2 # qs))))"
  by pat_completeness auto
termination
proof (relation "measure (\<lambda>(add, Args, layer, quants). length quants)")
  show "wf (measure (\<lambda>(add, Args, layer, quants). length quants))"
    by simp
next
  fix add :: "targ list \<Rightarrow> 'a \<Rightarrow> 'a \<Rightarrow> error + 'a" and Args layer q1 q2 qs psums
  assume "add_pairs add (ReducerTypeSelector Args layer) (q1 # q2 # qs) = Inr psums"
  then have "length psums = length (q1 # q2 # qs) div 2"
    by (rule add_pairs_length)
  then show "((add, Args, layer + 1, psums), (add, Args, layer, q1 # q2 # qs))
               \<in> measure (\<lambda>(add, Args, layer, quants). length quants)"
    by simp
next
  fix add :: "targ list \<Rightarrow> 'a \<Rightarrow> 'a \<Rightarrow> error + 'a" and Args layer q1 q2 qs psums
  assume "add_pairs add (ReducerTypeSelector Args layer) (q1 # q2 # qs) = Inr psums"
  then have "length psums = length (q1 # q2 # qs) div 2"
    by (rule add_pairs_length)
  then show "((add, Args, layer + 1, psums), (add, Args, layer, q1 # q2 # qs))
               \<in> measure (\<lambda>(add, Args, layer, quants). length quants)"
    by simp
qed

definition Qreduce :: "targ list \<Rightarrow> Qu_s list \<Rightarrow> error + Qu_s" where
  \<comment> \<open>\<^verbatim>\<open>Qreduce<Args...>(quants...)\<close> on static scalars\<close>
  "Qreduce Args quants = reduce_impl Qadd (ReducerInputHelper Args) 0 quants"

definition Qadd_dyn :: "targ list \<Rightarrow> QuDynamic \<Rightarrow> QuDynamic \<Rightarrow> error + QuDynamic" where
  "Qadd_dyn toArgs f1 f2 = Qadd_dyn_add (MergerArgsWrapper toArgs) f1 f2"

definition Qmul_dyn :: "targ list \<Rightarrow> QuDynamic \<Rightarrow> QuDynamic \<Rightarrow> error + QuDynamic" where
  "Qmul_dyn toArgs f1 f2 = Qmul_dyn_mul (MergerArgsWrapper toArgs) f1 f2"

definition Qsub_dyn :: "targ list \<Rightarrow> QuDynamic \<Rightarrow> QuDynamic \<Rightarrow> error + QuDynamic" where
  "Qsub_dyn toArgs f1 f2 = Qsub_dyn_sub (MergerArgsWrapper toArgs) f1 f2"

definition Qdiv_dyn :: "targ list \<Rightarrow> QuDynamic \<Rightarrow> QuDynamic \<Rightarrow> error + QuDynamic" where
  "Qdiv_dyn toArgs f1 f2 = Qdiv_dyn_div (MergerArgsWrapper toArgs) f1 f2"

definition Qreduce_dyn :: "targ list \<Rightarrow> QuDynamic list \<Rightarrow> error + QuDynamic" where
  \<comment> \<open>\<^verbatim>\<open>Qreduce<Args...>(quants...)\<close> on dynamic scalars\<close>
  "Qreduce_dyn Args quants = reduce_impl Qadd_dyn (ReducerInputHelper Args) 0 quants"

section \<open>Tensors\<close>

text \<open>
  \<^verbatim>\<open>Qu_s<dim<dims...>, Arg>\<close>: a \<^verbatim>\<open>std::array\<close> of scalars of one static type.  The
  model keeps the element format once and the raw \<^verbatim>\<open>data\<close> of every element.
  \<^verbatim>\<open>std::array::operator[]\<close> does not check its index.

  An element is reached in two ways.  \<^verbatim>\<open>operator[](auto... index)\<close> computes the
  position at run time with \<^verbatim>\<open>calculateIndex\<close>, which weights index \<open>k\<close> with the
  product of the first \<open>k\<close> dimensions.  \<^verbatim>\<open>get<index...>()\<close> takes the position from
  \<^verbatim>\<open>dim<dims...>::template absoluteIndex<index...>\<close>.
\<close>

record Tensor =
  tfmt :: fmt
  dims :: "nat list"
  elems :: "int list"

definition elemSizeForIndexHead :: "nat list \<Rightarrow> nat \<Rightarrow> nat" where
  \<comment> \<open>\<^verbatim>\<open>std::accumulate(dimArray.begin(), dimArray.begin() + index2, 1, std::multiplies<size_t>())\<close>\<close>
  "elemSizeForIndexHead ds index2 = prod_list (take index2 ds)"

fun calculateIndex :: "nat list \<Rightarrow> nat \<Rightarrow> nat list \<Rightarrow> nat" where
  "calculateIndex ds accum [] = accum"
| "calculateIndex ds accum [first] = accum + first * elemSizeForIndexHead ds (length ds - 1)"
| "calculateIndex ds accum (first # rest) =
     calculateIndex ds (accum + first * elemSizeForIndexHead ds (length ds - length rest - 1)) rest"

definition subscript :: "Tensor \<Rightarrow> nat list \<Rightarrow> Qu_s" where
  \<comment> \<open>\<^verbatim>\<open>T[index...]\<close> read: \<^verbatim>\<open>data[calculateIndex(0, index...)]\<close>\<close>
  "subscript T idx = \<lparr>fmt_of = tfmt T, data = elems T ! calculateIndex (dims T) 0 idx\<rparr>"

definition assign_subscript :: "Tensor \<Rightarrow> nat list \<Rightarrow> Qu_s \<Rightarrow> error + Tensor" where
  \<comment> \<open>\<^verbatim>\<open>T[index...] = v\<close>: the value is converted to the element type, then stored\<close>
  "assign_subscript T idx v =
     ebind (Qu_s_from (tfmt T) v)
       (\<lambda>v'. Inr (T\<lparr>elems := (elems T)[calculateIndex (dims T) 0 idx := data v']\<rparr>))"

text \<open>
  The header declares, inside \<^verbatim>\<open>dim\<close>,

  \<^verbatim>\<open>template <size_t... index> requires(sizeof...(index) == dimSize)\<close>
  \<^verbatim>\<open>using absoluteIndex = absoluteIndex_s<index...>::value;\<close>

  an alias template, whose right-hand side has to name a type.  \<^verbatim>\<open>value\<close> is the static
  data member of \<^verbatim>\<open>absoluteIndex_s\<close> that holds the position, not a type, so the alias
  has no specialization and \<^verbatim>\<open>data[dim<dims...>::template absoluteIndex<index...>]\<close>, the
  body of both overloads of \<^verbatim>\<open>get\<close>, cannot be instantiated for any tensor and any
  indices.  A use of \<^verbatim>\<open>get\<close> is an error of the same kind as a missing specialization.
\<close>

definition absoluteIndex :: "nat list \<Rightarrow> nat list \<Rightarrow> error + nat" where
  "absoluteIndex ds idx = Inl NoInstantiation"

definition get :: "Tensor \<Rightarrow> nat list \<Rightarrow> error + Qu_s" where
  \<comment> \<open>\<^verbatim>\<open>T.get<index...>()\<close> read\<close>
  "get T idx =
     ebind (absoluteIndex (dims T) idx) (\<lambda>k. Inr \<lparr>fmt_of = tfmt T, data = elems T ! k\<rparr>)"

definition assign_get :: "Tensor \<Rightarrow> nat list \<Rightarrow> Qu_s \<Rightarrow> error + Tensor" where
  \<comment> \<open>\<^verbatim>\<open>T.get<index...>() = v\<close>: the value is converted to the element type, then stored\<close>
  "assign_get T idx v =
     ebind (absoluteIndex (dims T) idx) (\<lambda>k.
     ebind (Qu_s_from (tfmt T) v) (\<lambda>v'. Inr (T\<lparr>elems := (elems T)[k := data v']\<rparr>)))"

section \<open>The reducer on a vector\<close>

text \<open>
  \<^verbatim>\<open>reduce_impl<layer>(const Qu_s<dim<len>, fromArgs...> &)\<close> keeps the next layer in
  a function-local \<^verbatim>\<open>static\<close> tensor \<^verbatim>\<open>res\<close> of \<open>(len + 1) / 2\<close> elements, whose
  element type is the layer's bundle itself (or the input's element type when no bundle
  is given).  The static buffers are state that outlives the call: \<open>bufs layer\<close> is the
  raw content of the buffer of the instantiation reached at that layer.  Every element
  is read and written through \<^verbatim>\<open>get\<close>.  For a vector without elements the recursion
  would instantiate itself without end.
\<close>

definition res_elem_type :: "targ \<Rightarrow> fmt \<Rightarrow> nat \<Rightarrow> error + fmt" where
  "res_elem_type type F len =
     (case type of
        nullptr_t \<Rightarrow> Inr F
      | QuType G \<Rightarrow> if Qu_s_static_assert G then Inr G else Inl StaticAssertTotalBits
      | _ \<Rightarrow> if len = 1 then Inr F else Inl NoInstantiation)"

fun vec_pairs :: "targ \<Rightarrow> Tensor \<Rightarrow> nat list \<Rightarrow> Tensor \<Rightarrow> error + Tensor" where
  \<comment> \<open>\<^verbatim>\<open>res.get<I>() = Qadd<type>(quants.get<I * 2>(), quants.get<I * 2 + 1>())\<close> for
      every \<open>I\<close> of the sequence\<close>
  "vec_pairs type quants [] res = Inr res"
| "vec_pairs type quants (I # Is) res =
     ebind (get quants [I * 2]) (\<lambda>x.
     ebind (get quants [I * 2 + 1]) (\<lambda>y.
     ebind (Qadd [type] x y) (\<lambda>s.
     ebind (assign_get res [I] s) (\<lambda>res'. vec_pairs type quants Is res'))))"

definition carry_last :: "Tensor \<Rightarrow> nat \<Rightarrow> Tensor \<Rightarrow> error + Tensor" where
  \<comment> \<open>\<^verbatim>\<open>if constexpr (len % 2 != 0) res.get<(len + 1) / 2 - 1>() = quants.get<len - 1>()\<close>\<close>
  "carry_last quants len res =
     (if len mod 2 \<noteq> 0
      then ebind (get quants [len - 1]) (\<lambda>q. assign_get res [(len + 1) div 2 - 1] q)
      else Inr res)"

lemma assign_get_dims: "assign_get T idx v = Inr T' \<Longrightarrow> dims T' = dims T"
  by (auto simp: assign_get_def ebind_def split: sum.splits)

lemma vec_pairs_dims: "vec_pairs type quants Is res = Inr res' \<Longrightarrow> dims res' = dims res"
proof (induction Is arbitrary: res)
  case Nil
  then show ?case by simp
next
  case (Cons I Is)
  from Cons.prems obtain s r1 where
    "assign_get res [I] s = Inr r1" and "vec_pairs type quants Is r1 = Inr res'"
    by (auto simp: ebind_def split: sum.splits)
  then show ?case
    using Cons.IH [of r1] assign_get_dims [of res "[I]" s r1] by simp
qed

lemma carry_last_dims: "carry_last quants len res = Inr res' \<Longrightarrow> dims res' = dims res"
  by (auto simp: carry_last_def ebind_def assign_get_dims split: sum.splits if_splits)

function reduce_impl_vec ::
  "targ list \<Rightarrow> nat \<Rightarrow> Tensor \<Rightarrow> (nat \<Rightarrow> int list) \<Rightarrow> error + Qu_s \<times> (nat \<Rightarrow> int list)" where
  "reduce_impl_vec Args layer quants bufs =
     (case dims quants of
        [len] \<Rightarrow>
          (case res_elem_type (ReducerTypeSelector Args layer) (tfmt quants) len of
             Inl e \<Rightarrow> Inl e
           | Inr R \<Rightarrow>
               if len = 0 then Inl NoInstantiation
               else if len = 1
               then (case get quants [0] of Inl e \<Rightarrow> Inl e | Inr q \<Rightarrow> Inr (q, bufs))
               else (case vec_pairs (ReducerTypeSelector Args layer) quants [0 ..< len div 2]
                            \<lparr>tfmt = R, dims = [(len + 1) div 2], elems = bufs layer\<rparr> of
                       Inl e \<Rightarrow> Inl e
                     | Inr res \<Rightarrow>
                         (case carry_last quants len res of
                            Inl e \<Rightarrow> Inl e
                          | Inr res' \<Rightarrow>
                              reduce_impl_vec Args (layer + 1) res' (bufs(layer := elems res')))))
      | _ \<Rightarrow> Inl NoInstantiation)"
  by pat_completeness auto
termination
proof (relation "measure (\<lambda>(Args, layer, quants, bufs). sum_list (dims quants))")
  show "wf (measure (\<lambda>(Args, layer, quants, bufs). sum_list (dims quants)))"
    by simp
next
  fix Args layer quants and bufs :: "nat \<Rightarrow> int list" and len ds R res res'
  assume d: "dims quants = len # ds" and ds: "ds = []" and l0: "len \<noteq> 0" and l1: "len \<noteq> 1"
    and vp: "vec_pairs (ReducerTypeSelector Args layer) quants [0 ..< len div 2]
               \<lparr>tfmt = R, dims = [(len + 1) div 2], elems = bufs layer\<rparr> = Inr res"
    and cl: "carry_last quants len res = Inr res'"
  have "dims res' = [(len + 1) div 2]"
    using vec_pairs_dims [OF vp] carry_last_dims [OF cl] by simp
  then show "((Args, layer + 1, res', bufs(layer := elems res')), (Args, layer, quants, bufs))
               \<in> measure (\<lambda>(Args, layer, quants, bufs). sum_list (dims quants))"
    using d ds l0 l1 by simp
qed

text \<open>
  \<open>unwritten\<close> is the state of the buffers in which no layer has stored anything yet.
\<close>

definition unwritten :: "nat \<Rightarrow> int list" where
  "unwritten layer = []"

section \<open>Lookup table\<close>

text \<open>
  \<^verbatim>\<open>Qtable<func>(x)\<close> evaluates a \<^verbatim>\<open>double (*)(double)\<close> at \<^verbatim>\<open>x.toDouble()\<close> and
  builds a scalar of the format of \<open>x\<close>, with rounding mode \<^verbatim>\<open>RND::ZERO\<close>, from the
  result.  Binary64 arithmetic is not part of the model: the function is a parameter,
  standing for the values the binary64 function takes.
\<close>

definition Qtable :: "(real \<Rightarrow> real) \<Rightarrow> Qu_s \<Rightarrow> error + Qu_s" where
  "Qtable func x =
     ebind (Qu_s_of_real ((fmt_of x)\<lparr>QuM := RND_ZERO\<rparr>) (func (toDouble x)))
       (\<lambda>val. Qu_s_direct (fmt_of x) (data val))"

section \<open>Cholesky factorization and solve\<close>

text \<open>
  \<^verbatim>\<open>Qpotrf_s\<close> and \<^verbatim>\<open>Qpotrs_s\<close> unroll their loops over index sequences and reach every
  element through \<^verbatim>\<open>get\<close>; \<^verbatim>\<open>*\<close> and \<^verbatim>\<open>-\<close> on scalars are \<^verbatim>\<open>Qmul\<close> and \<^verbatim>\<open>Qsub\<close> without
  arguments.  The parameter \<open>rsqrtFunc\<close> stands for \<^verbatim>\<open>ANUS::rsqrtFunc\<close>, the binary64
  function \<^verbatim>\<open>[](double x) { return 1.0 / std::sqrt(x); }\<close>.
\<close>

fun loop_sec1_inner :: "nat \<Rightarrow> nat \<Rightarrow> nat list \<Rightarrow> Tensor \<Rightarrow> error + Tensor" where
  \<comment> \<open>\<^verbatim>\<open>A.get<I + J, J>() = A.get<I + J, J>() - A.get<I + J, K>() * A.get<J, K>()\<close> for
      every \<open>I\<close> of the sequence\<close>
  "loop_sec1_inner J K [] A = Inr A"
| "loop_sec1_inner J K (I # Is) A =
     ebind (get A [I + J, J]) (\<lambda>x.
     ebind (get A [I + J, K]) (\<lambda>y.
     ebind (get A [J, K]) (\<lambda>z.
     ebind (Qmul [] y z) (\<lambda>p.
     ebind (Qsub [] x p) (\<lambda>d.
     ebind (assign_get A [I + J, J] d) (\<lambda>A'. loop_sec1_inner J K Is A'))))))"

fun loop_sec1_outer :: "nat \<Rightarrow> nat \<Rightarrow> nat list \<Rightarrow> Tensor \<Rightarrow> error + Tensor" where
  "loop_sec1_outer row J [] A = Inr A"
| "loop_sec1_outer row J (K # Ks) A =
     ebind (loop_sec1_inner J K [0 ..< row - J] A) (\<lambda>A'. loop_sec1_outer row J Ks A')"

fun scale_column :: "nat \<Rightarrow> Qu_s \<Rightarrow> nat list \<Rightarrow> Tensor \<Rightarrow> error + Tensor" where
  \<comment> \<open>\<^verbatim>\<open>A.get<I + J, J>() = A.get<I + J, J>() * temp\<close> for every \<open>I\<close> of the sequence\<close>
  "scale_column J temp [] A = Inr A"
| "scale_column J temp (I # Is) A =
     ebind (get A [I + J, J]) (\<lambda>x.
     ebind (Qmul [] x temp) (\<lambda>p.
     ebind (assign_get A [I + J, J] p) (\<lambda>A'. scale_column J temp Is A')))"

definition loop_sec2 :: "(real \<Rightarrow> real) \<Rightarrow> nat \<Rightarrow> nat \<Rightarrow> Tensor \<Rightarrow> error + Tensor" where
  "loop_sec2 rsqrtFunc row J A =
     ebind (get A [J, J]) (\<lambda>x.
     ebind (Qtable rsqrtFunc x) (\<lambda>temp.
     ebind (scale_column J temp [0 ..< row - J] A) (\<lambda>A'. assign_get A' [J, J] temp)))"

definition loop_inner :: "(real \<Rightarrow> real) \<Rightarrow> nat \<Rightarrow> nat \<Rightarrow> Tensor \<Rightarrow> error + Tensor" where
  \<comment> \<open>the \<^verbatim>\<open>return\<close> on a pivot that is not positive ends this call only\<close>
  "loop_inner rsqrtFunc row J A =
     ebind (loop_sec1_outer row J [0 ..< J] A) (\<lambda>A'.
     ebind (get A' [J, J]) (\<lambda>x.
       if data x \<le> 0 then Inr A' else loop_sec2 rsqrtFunc row J A'))"

fun loop :: "(real \<Rightarrow> real) \<Rightarrow> nat \<Rightarrow> nat list \<Rightarrow> Tensor \<Rightarrow> error + Tensor" where
  \<comment> \<open>\<^verbatim>\<open>((loop_inner<J>(A), ...))\<close>: one call for every \<open>J\<close> of the sequence\<close>
  "loop rsqrtFunc row [] A = Inr A"
| "loop rsqrtFunc row (J # Js) A =
     ebind (loop_inner rsqrtFunc row J A) (\<lambda>A'. loop rsqrtFunc row Js A')"

definition Qpotrf :: "(real \<Rightarrow> real) \<Rightarrow> Tensor \<Rightarrow> error + Tensor" where
  "Qpotrf rsqrtFunc A =
     (case dims A of
        [row, col] \<Rightarrow>
          if row = col then loop rsqrtFunc row [0 ..< col] A else Inl StaticAssertShape
      | _ \<Rightarrow> Inl NoInstantiation)"

fun forward_subs :: "Tensor \<Rightarrow> nat \<Rightarrow> nat list \<Rightarrow> Tensor \<Rightarrow> error + Tensor" where
  \<comment> \<open>\<^verbatim>\<open>b.get<I>() = b.get<I>() - L.get<I, J>() * b.get<J>()\<close> for every \<open>J\<close> of the
      sequence\<close>
  "forward_subs L I [] b = Inr b"
| "forward_subs L I (J # Js) b =
     ebind (get b [I]) (\<lambda>x.
     ebind (get L [I, J]) (\<lambda>y.
     ebind (get b [J]) (\<lambda>z.
     ebind (Qmul [] y z) (\<lambda>p.
     ebind (Qsub [] x p) (\<lambda>d.
     ebind (assign_get b [I] d) (\<lambda>b'. forward_subs L I Js b'))))))"

definition scale_entry :: "Tensor \<Rightarrow> nat \<Rightarrow> Tensor \<Rightarrow> error + Tensor" where
  \<comment> \<open>\<^verbatim>\<open>b.get<I>() = b.get<I>() * L.get<I, I>()\<close>\<close>
  "scale_entry L I b =
     ebind (get b [I]) (\<lambda>x.
     ebind (get L [I, I]) (\<lambda>y.
     ebind (Qmul [] x y) (\<lambda>p. assign_get b [I] p)))"

definition execute_forward :: "Tensor \<Rightarrow> nat \<Rightarrow> Tensor \<Rightarrow> error + Tensor" where
  "execute_forward L I b = ebind (forward_subs L I [0 ..< I] b) (\<lambda>b'. scale_entry L I b')"

fun backward_subs :: "Tensor \<Rightarrow> nat \<Rightarrow> nat list \<Rightarrow> Tensor \<Rightarrow> error + Tensor" where
  \<comment> \<open>\<^verbatim>\<open>b.get<I>() = b.get<I>() - L.get<J + I + 1, I>() * b.get<J + I + 1>()\<close> for every
      \<open>J\<close> of the sequence\<close>
  "backward_subs L I [] b = Inr b"
| "backward_subs L I (J # Js) b =
     ebind (get b [I]) (\<lambda>x.
     ebind (get L [J + I + 1, I]) (\<lambda>y.
     ebind (get b [J + I + 1]) (\<lambda>z.
     ebind (Qmul [] y z) (\<lambda>p.
     ebind (Qsub [] x p) (\<lambda>d.
     ebind (assign_get b [I] d) (\<lambda>b'. backward_subs L I Js b'))))))"

definition execute_backward :: "Tensor \<Rightarrow> nat \<Rightarrow> nat \<Rightarrow> Tensor \<Rightarrow> error + Tensor" where
  \<comment> \<open>\<^verbatim>\<open>execute_backward<I>(L, b, std::make_index_sequence<n>())\<close>\<close>
  "execute_backward L I n b = ebind (backward_subs L I [0 ..< n] b) (\<lambda>b'. scale_entry L I b')"

fun forward_all :: "Tensor \<Rightarrow> nat list \<Rightarrow> Tensor \<Rightarrow> error + Tensor" where
  "forward_all L [] b = Inr b"
| "forward_all L (I # Is) b = ebind (execute_forward L I b) (\<lambda>b'. forward_all L Is b')"

fun backward_all :: "Tensor \<Rightarrow> nat \<Rightarrow> nat list \<Rightarrow> Tensor \<Rightarrow> error + Tensor" where
  "backward_all L row [] b = Inr b"
| "backward_all L row (I # Is) b =
     ebind (execute_backward L (row - 1 - I) I b) (\<lambda>b'. backward_all L row Is b')"

definition Qpotrs :: "Tensor \<Rightarrow> Tensor \<Rightarrow> error + Tensor" where
  "Qpotrs L b =
     (case dims L of
        [row, col] \<Rightarrow>
          if row = col
          then ebind (forward_all L [0 ..< row] b) (\<lambda>b'. backward_all L row [0 ..< row] b')
          else Inl StaticAssertShape
      | _ \<Rightarrow> Inl NoInstantiation)"

section \<open>General matrix multiply\<close>

text \<open>
  \<^verbatim>\<open>Qgemul_s<...>::execute(C, A, B)\<close> takes its tensors by reference.  The tensors of
  the program are kept in a store, a reference being an index into it, so that a call
  whose destination is also an operand is a call with equal indices.  Besides the store
  the state holds what the kernel keeps in static storage: the member
  \<^verbatim>\<open>static inline Qu_s<dim<K>, mulMerger::resType> vecC\<close> of the instantiation and the
  function-local \<^verbatim>\<open>static\<close> buffers \<^verbatim>\<open>res\<close> of the reducer, one per layer.  The
  operands and the destination are indexed with \<^verbatim>\<open>operator[]\<close>; \<^verbatim>\<open>Qreduce\<close> on the tensor
  \<^verbatim>\<open>vecC\<close> is the reducer on a vector.
\<close>

record gstate =
  heap :: "Tensor list"
  vecC :: "int list"
  res_bufs :: "nat \<Rightarrow> int list"

definition Qgemul_static_assert ::
  "bool \<Rightarrow> bool \<Rightarrow> nat \<Rightarrow> nat \<Rightarrow> nat \<Rightarrow> nat \<Rightarrow> nat \<Rightarrow> nat \<Rightarrow> bool" where
  "Qgemul_static_assert isTransposedA isTransposedB rowA colA rowB colB rowC colC =
     ((\<not> isTransposedA \<and> \<not> isTransposedB \<and> (colA = rowB \<and> rowA = rowC \<and> colB = colC))
      \<or> (\<not> isTransposedA \<and> isTransposedB \<and> (colA = colB \<and> rowA = rowC \<and> rowB = colC))
      \<or> (isTransposedA \<and> \<not> isTransposedB \<and> (rowA = rowB \<and> colA = rowC \<and> colB = colC))
      \<or> (isTransposedA \<and> isTransposedB \<and> (rowA = colB \<and> colA = rowC \<and> rowB = colC)))"

fun Qgemul_loop_k ::
  "bool \<Rightarrow> bool \<Rightarrow> targ list \<Rightarrow> fmt \<Rightarrow> nat \<Rightarrow> nat \<Rightarrow> nat \<Rightarrow> nat \<Rightarrow> nat list \<Rightarrow> gstate
   \<Rightarrow> error + gstate" where
  \<comment> \<open>\<^verbatim>\<open>vecC[k] = Qmul<mulArgs...>(A[rA, cA], B[rB, cB])\<close> for every \<open>k\<close> of the sequence\<close>
  "Qgemul_loop_k isTransposedA isTransposedB mulArgs R a b i j [] st = Inr st"
| "Qgemul_loop_k isTransposedA isTransposedB mulArgs R a b i j (k # ks) st =
     (let rA = (if isTransposedA then k else i);
          cA = (if isTransposedA then i else k);
          rB = (if isTransposedB then j else k);
          cB = (if isTransposedB then k else j)
      in ebind (Qmul mulArgs (subscript (heap st ! a) [rA, cA]) (subscript (heap st ! b) [rB, cB])) (\<lambda>p.
         ebind (Qu_s_from R p) (\<lambda>v.
         Qgemul_loop_k isTransposedA isTransposedB mulArgs R a b i j ks
           (st\<lparr>vecC := (vecC st)[k := data v]\<rparr>))))"

fun Qgemul_loop_j ::
  "bool \<Rightarrow> bool \<Rightarrow> targ list \<Rightarrow> targ list \<Rightarrow> fmt \<Rightarrow> nat \<Rightarrow> nat \<Rightarrow> nat \<Rightarrow> nat \<Rightarrow> nat
   \<Rightarrow> nat list \<Rightarrow> gstate \<Rightarrow> error + gstate" where
  \<comment> \<open>the body of the loop over \<open>j\<close>: the products, then
      \<^verbatim>\<open>C[i, j] = Qreduce<addArgs...>(vecC)\<close>\<close>
  "Qgemul_loop_j isTransposedA isTransposedB addArgs mulArgs R K c a b i [] st = Inr st"
| "Qgemul_loop_j isTransposedA isTransposedB addArgs mulArgs R K c a b i (j # js) st =
     ebind (Qgemul_loop_k isTransposedA isTransposedB mulArgs R a b i j [0 ..< K] st) (\<lambda>st1.
     ebind (reduce_impl_vec (ReducerInputHelper addArgs) 0
              \<lparr>tfmt = R, dims = [K], elems = vecC st1\<rparr> (res_bufs st1)) (\<lambda>r.
     ebind (assign_subscript (heap st1 ! c) [i, j] (fst r)) (\<lambda>C'.
     Qgemul_loop_j isTransposedA isTransposedB addArgs mulArgs R K c a b i js
       (st1\<lparr>heap := (heap st1)[c := C'], res_bufs := snd r\<rparr>))))"

fun Qgemul_loop_i ::
  "bool \<Rightarrow> bool \<Rightarrow> targ list \<Rightarrow> targ list \<Rightarrow> fmt \<Rightarrow> nat \<Rightarrow> nat \<Rightarrow> nat \<Rightarrow> nat \<Rightarrow> nat list
   \<Rightarrow> nat list \<Rightarrow> gstate \<Rightarrow> error + gstate" where
  "Qgemul_loop_i isTransposedA isTransposedB addArgs mulArgs R K c a b [] js st = Inr st"
| "Qgemul_loop_i isTransposedA isTransposedB addArgs mulArgs R K c a b (i # is) js st =
     ebind (Qgemul_loop_j isTransposedA isTransposedB addArgs mulArgs R K c a b i js st) (\<lambda>st1.
     Qgemul_loop_i isTransposedA isTransposedB addArgs mulArgs R K c a b is js st1)"

text \<open>
  \<^verbatim>\<open>Qgemul<interiorArgs...>(C, A, B)\<close> extracts the two transposition flags and the two
  argument packs and calls \<^verbatim>\<open>execute\<close>.  The class exists only when the shapes pass the
  \<^verbatim>\<open>static_assert\<close> and \<^verbatim>\<open>MulMerger<Qu<ArgsA...>, Qu<ArgsB...>, mulArgs...>\<close> is defined,
  which needs \<^verbatim>\<open>mulArgs...\<close> to be one \<^verbatim>\<open>TypeList\<close>; the element type of \<^verbatim>\<open>vecC\<close> is its
  \<^verbatim>\<open>resType\<close>.
\<close>

definition Qgemul_s_execute ::
  "bool \<Rightarrow> bool \<Rightarrow> targ list \<Rightarrow> targ list \<Rightarrow> nat \<Rightarrow> nat \<Rightarrow> nat \<Rightarrow> gstate \<Rightarrow> error + gstate" where
  "Qgemul_s_execute isTransposedA isTransposedB addArgs mulArgs c a b st =
     (case dims (heap st ! c) of
        [rowC, colC] \<Rightarrow>
          (case dims (heap st ! a) of
             [rowA, colA] \<Rightarrow>
               (case dims (heap st ! b) of
                  [rowB, colB] \<Rightarrow>
                    if \<not> Qgemul_static_assert isTransposedA isTransposedB rowA colA rowB colB rowC colC
                    then Inl StaticAssertShape
                    else (case mulArgs of
                            [TypeList toArgs] \<Rightarrow>
                              (let R = resType (MulMerger (tfmt (heap st ! a)) (tfmt (heap st ! b)) toArgs)
                               in if \<not> Qu_s_static_assert R then Inl StaticAssertTotalBits
                                  else Qgemul_loop_i isTransposedA isTransposedB addArgs mulArgs R
                                         (if isTransposedA then rowA else colA) c a b
                                         [0 ..< (if isTransposedA then colA else rowA)]
                                         [0 ..< (if isTransposedB then rowB else colB)] st)
                          | _ \<Rightarrow> Inl NoInstantiation)
                | _ \<Rightarrow> Inl NoInstantiation)
           | _ \<Rightarrow> Inl NoInstantiation)
      | _ \<Rightarrow> Inl NoInstantiation)"

section \<open>Auxiliary predicates\<close>

text \<open>
  A scalar holds a value of its format when the total width is within the 31 bits of
  the \<^verbatim>\<open>static_assert\<close>, the raw data lie between \<^verbatim>\<open>minVal\<close> and \<^verbatim>\<open>maxVal\<close> of the
  format, and the overflow mode is one whose \<^verbatim>\<open>intConvert\<close> keeps every value of that
  range.
\<close>

definition in_range :: "fmt \<Rightarrow> int \<Rightarrow> bool" where
  "in_range F d =
     ((if isS F then - (2 ^ nat (intB F + fracB F)) \<le> d else 0 \<le> d)
      \<and> d < 2 ^ nat (intB F + fracB F))"

definition exact_ofm :: "OfMode \<Rightarrow> bool" where
  "exact_ofm om = (om = SAT_TCPL \<or> om = SAT_ZERO \<or> om = WRP_TCPL)"

definition valid_Qu :: "Qu_s \<Rightarrow> bool" where
  "valid_Qu q =
     (0 \<le> intB (fmt_of q) \<and> 0 \<le> fracB (fmt_of q) \<and> intB (fmt_of q) + fracB (fmt_of q) \<le> 31
      \<and> in_range (fmt_of q) (data q) \<and> exact_ofm (OfM (fmt_of q)))"

section \<open>Properties of the merger rules\<close>

lemma cdiv_pos: "0 \<le> a \<Longrightarrow> 0 < b \<Longrightarrow> cdiv a b = a div b"
  by (cases "a = 0") (simp_all add: cdiv_def)

lemma cap_sum:
  assumes "ti + tf > 31"
  shows "capInt ti tf = ti - (ti + tf - 31 + 1) div 2"
    and "capFrac ti tf = tf - (ti + tf - 31 + 1) div 2"
    and "30 \<le> capInt ti tf + capFrac ti tf"
    and "capInt ti tf + capFrac ti tf \<le> 31"
  using assms by (simp_all add: capInt_def capFrac_def cdiv_pos)

lemma cap_ceiling: "(s - 31 + 1) div 2 = \<lceil>real_of_int (s - 31) / 2\<rceil>" for s :: int
proof -
  have "\<lceil>real_of_int (s - 31) / real_of_int 2\<rceil> = - (- (s - 31) div 2)"
    by (rule ceiling_divide_eq_div)
  also have "\<dots> = (s - 31 + 1) div 2"
    by presburger
  finally show ?thesis by simp
qed

lemma merger_final:
  "toIntFinal (MulMerger F1 F2 toArgs)
     = capInt (toInt (MulMerger F1 F2 toArgs)) (toFrac (MulMerger F1 F2 toArgs))"
  "toFracFinal (MulMerger F1 F2 toArgs)
     = capFrac (toInt (MulMerger F1 F2 toArgs)) (toFrac (MulMerger F1 F2 toArgs))"
  "toIntFinal (AddMerger F1 F2 toArgs)
     = capInt (toInt (AddMerger F1 F2 toArgs)) (toFrac (AddMerger F1 F2 toArgs))"
  "toFracFinal (AddMerger F1 F2 toArgs)
     = capFrac (toInt (AddMerger F1 F2 toArgs)) (toFrac (AddMerger F1 F2 toArgs))"
  by (simp_all add: MulMerger_def AddMerger_def Let_def)

text \<open>
  Claim C3, as stated: when the merged widths exceed 31 bits, both are reduced by
  \<open>\<lceil>(i + f - 31 + 1) / 2\<rceil>\<close>.  For a full-precision product of (9,8) by (8,8) the
  merged widths are (17,16); the stated amount is \<open>\<lceil>3 / 2\<rceil> = 2\<close>, but the merger takes
  off \<open>3 / 2 = 1\<close> in integer arithmetic and yields (16,15).
\<close>

theorem C3_ceiling_counterexample:
  "toInt (MulMerger \<lparr>intB = 9, fracB = 8, isS = True, QuM = TRN_TCPL, OfM = SAT_TCPL\<rparr>
                    \<lparr>intB = 8, fracB = 8, isS = True, QuM = TRN_TCPL, OfM = SAT_TCPL\<rparr> [FullPrec]) = 17
   \<and> toFrac (MulMerger \<lparr>intB = 9, fracB = 8, isS = True, QuM = TRN_TCPL, OfM = SAT_TCPL\<rparr>
                    \<lparr>intB = 8, fracB = 8, isS = True, QuM = TRN_TCPL, OfM = SAT_TCPL\<rparr> [FullPrec]) = 16
   \<and> toIntFinal (MulMerger \<lparr>intB = 9, fracB = 8, isS = True, QuM = TRN_TCPL, OfM = SAT_TCPL\<rparr>
                    \<lparr>intB = 8, fracB = 8, isS = True, QuM = TRN_TCPL, OfM = SAT_TCPL\<rparr> [FullPrec])
       \<noteq> 17 - \<lceil>real_of_int (17 + 16 - 31 + 1) / 2\<rceil>
   \<and> toFracFinal (MulMerger \<lparr>intB = 9, fracB = 8, isS = True, QuM = TRN_TCPL, OfM = SAT_TCPL\<rparr>
                    \<lparr>intB = 8, fracB = 8, isS = True, QuM = TRN_TCPL, OfM = SAT_TCPL\<rparr> [FullPrec])
       \<noteq> 16 - \<lceil>real_of_int (17 + 16 - 31 + 1) / 2\<rceil>"
  by (simp add: MulMerger_def fullPrecision_def capInt_def capFrac_def cdiv_def)

text \<open>
  Claim C3, amended: when the merged widths \<open>toInt + toFrac\<close> of \<^verbatim>\<open>MulMerger\<close> or
  \<^verbatim>\<open>AddMerger\<close> exceed 31, the final widths of \<^verbatim>\<open>resType\<close> are both reduced, once,
  by \<open>(toInt + toFrac - 31 + 1) div 2\<close>, which is \<open>\<lceil>(toInt + toFrac - 31) / 2\<rceil>\<close>; the
  final widths then add up to 30 or 31.
\<close>

theorem C3_width_cap:
  assumes "m = MulMerger F1 F2 toArgs \<or> m = AddMerger F1 F2 toArgs"
    and "toInt m + toFrac m > 31"
  shows "intB (resType m) = toInt m - (toInt m + toFrac m - 31 + 1) div 2
       \<and> fracB (resType m) = toFrac m - (toInt m + toFrac m - 31 + 1) div 2
       \<and> (toInt m + toFrac m - 31 + 1) div 2 = \<lceil>real_of_int (toInt m + toFrac m - 31) / 2\<rceil>
       \<and> 30 \<le> intB (resType m) + fracB (resType m)
       \<and> intB (resType m) + fracB (resType m) \<le> 31"
proof -
  have fin: "toIntFinal m = capInt (toInt m) (toFrac m)"
    "toFracFinal m = capFrac (toInt m) (toFrac m)"
    using assms(1) merger_final by auto
  show ?thesis
    using cap_sum [OF assms(2)] cap_ceiling [of "toInt m + toFrac m"]
    by (simp add: resType_def fin)
qed

theorem C3_width_cap_witness:
  "toInt (MulMerger \<lparr>intB = 9, fracB = 8, isS = True, QuM = TRN_TCPL, OfM = SAT_TCPL\<rparr>
                    \<lparr>intB = 8, fracB = 8, isS = True, QuM = TRN_TCPL, OfM = SAT_TCPL\<rparr> [FullPrec])
   + toFrac (MulMerger \<lparr>intB = 9, fracB = 8, isS = True, QuM = TRN_TCPL, OfM = SAT_TCPL\<rparr>
                    \<lparr>intB = 8, fracB = 8, isS = True, QuM = TRN_TCPL, OfM = SAT_TCPL\<rparr> [FullPrec]) > 31
   \<and> resType (MulMerger \<lparr>intB = 9, fracB = 8, isS = True, QuM = TRN_TCPL, OfM = SAT_TCPL\<rparr>
                    \<lparr>intB = 8, fracB = 8, isS = True, QuM = TRN_TCPL, OfM = SAT_TCPL\<rparr> [FullPrec])
       = \<lparr>intB = 16, fracB = 15, isS = True, QuM = TRN_TCPL, OfM = SAT_TCPL\<rparr>"
proof -
  let ?m = "MulMerger \<lparr>intB = 9, fracB = 8, isS = True, QuM = TRN_TCPL, OfM = SAT_TCPL\<rparr>
                    \<lparr>intB = 8, fracB = 8, isS = True, QuM = TRN_TCPL, OfM = SAT_TCPL\<rparr> [FullPrec]"
  have w: "toInt ?m = 17" "toFrac ?m = 16" "toIsSigned ?m = True" "toQuMode ?m = TRN_TCPL"
    "toOfMode ?m = SAT_TCPL"
    by (simp_all add: MulMerger_def fullPrecision_def)
  have h: "toInt ?m + toFrac ?m > 31"
    by (simp add: w)
  have "intB (resType ?m) = 16 \<and> fracB (resType ?m) = 15"
    using C3_width_cap [OF disjI1 [OF refl] h] by (simp add: w)
  then show ?thesis
    using h by (simp add: resType_def w)
qed

text \<open>The dynamic primitives write the same two capped widths into their result.\<close>

lemma dyn_result_widths:
  "Qmul_dyn_mul toArgs f1 f2 = Inr r \<Longrightarrow>
     intB_d r = capInt (dyn_mul_toInt toArgs (intB_d f1) (intB_d f2))
                       (dyn_mul_toFrac toArgs (fracB_d f1) (fracB_d f2))
     \<and> fracB_d r = capFrac (dyn_mul_toInt toArgs (intB_d f1) (intB_d f2))
                           (dyn_mul_toFrac toArgs (fracB_d f1) (fracB_d f2))"
  "Qadd_dyn_add toArgs f1 f2 = Inr r \<Longrightarrow>
     intB_d r = capInt (dyn_add_toInt toArgs (intB_d f1) (intB_d f2))
                       (dyn_add_toFrac toArgs (fracB_d f1) (fracB_d f2))
     \<and> fracB_d r = capFrac (dyn_add_toInt toArgs (intB_d f1) (intB_d f2))
                           (dyn_add_toFrac toArgs (fracB_d f1) (fracB_d f2))"
  by (auto simp: Qmul_dyn_mul_def Qadd_dyn_add_def Let_def split: sum.splits)

section \<open>Properties of the casting algebra\<close>

text \<open>
  Claim C4 (rounding mode ZERO picks the nearer of floor and ceil, ties toward 0),
  evaluated on the code.  For \<open>val = 7\<close> with two fractional bits dropped (1.75),
  floor is 4 and ceil is 8, and 7 is nearer to 8; the code tests only the sign of
  \<open>floor + ceil\<close> and returns floor, i.e. 1 instead of 2, in the static and in the
  dynamic converter.  For \<open>val = - 4\<close> (exactly \<open>- 1\<close>) it returns 0.
\<close>

theorem C4_zero_mode_ignores_distance:
  "frac_floor 2 7 = 4 \<and> frac_ceil 2 7 = 8 \<and> fracConvert RND_ZERO 2 0 7 = 1
   \<and> fracConvertDynamic 7 2 0 2 = Inr 1
   \<and> frac_floor 2 (- 4) = - 4 \<and> fracConvert RND_ZERO 2 0 (- 4) = 0"
  by (simp add: frac_floor_def frac_ceil_def fracConvertDynamic_def shl32_def shl64_def
      shr64_def wrap32_def wrap64_def)

section \<open>Properties of the scalar primitives\<close>

lemma wrap64_push_bit_wrap64: "wrap64 (push_bit b (wrap64 x)) = wrap64 (push_bit b x)"
  unfolding wrap64_def
  by (metis push_bit_eq_mult signed_take_bit_minus signed_take_bit_mult
    verit_minus_simplify(4))

lemma shl64_shl64: "0 \<le> a \<Longrightarrow> 0 \<le> b \<Longrightarrow> shl64 (shl64 x a) b = shl64 x (a + b)"
  by (simp add: shl64_def wrap64_push_bit_wrap64 nat_add_distrib push_bit_add add.commute)

lemma wrap32_idem: "wrap32 (wrap32 x) = wrap32 x"
  by (simp add: wrap32_def)

lemma intConvert_wrapped: "intConvert om ti tf s v = Inr d \<Longrightarrow> wrap32 d = d"
  by (cases om) (auto simp: wrap32_idem wrap32_def Let_def split: if_splits)

lemma shiftA_max: "shiftA f1 f2 = max f1 f2 - f1" and shiftB_max: "shiftB f1 f2 = max f1 f2 - f2"
  by (simp_all add: shiftA_def shiftB_def)

text \<open>
  Claim C5: when the divisor's raw data is zero, \<^verbatim>\<open>Qdiv\<close> returns the value with raw
  data 0 in the derived output format and raises nothing.  For static operands the
  derived format is the return type of \<^verbatim>\<open>Qdiv_s::div\<close>, and the call has to compile
  (the \<^verbatim>\<open>requires\<close> clause, and the \<^verbatim>\<open>static_assert\<close> of the return type); for
  dynamic operands it is the capped format written into the result, whatever the
  mode tags of the operands are.
\<close>

theorem C5_div_by_zero:
  "(data f2 = 0 \<and> \<not> head_is_Qu (MergerArgsWrapper toArgs)
      \<and> Qu_s_static_assert (retType (AddMerger (fmt_of f1) (fmt_of f2) (MergerArgsWrapper toArgs)))
    \<longrightarrow> Qdiv toArgs f1 f2
          = Inr \<lparr>fmt_of = retType (AddMerger (fmt_of f1) (fmt_of f2) (MergerArgsWrapper toArgs)), data = 0\<rparr>)
   \<and> (data_d g2 = 0
    \<longrightarrow> Qdiv_dyn dArgs g1 g2
          = Inr \<lparr>intB_d = capInt (dyn_add_toInt (MergerArgsWrapper dArgs) (intB_d g1) (intB_d g2))
                                 (dyn_add_toFrac (MergerArgsWrapper dArgs) (fracB_d g1) (fracB_d g2)),
                 fracB_d = capFrac (dyn_add_toInt (MergerArgsWrapper dArgs) (intB_d g1) (intB_d g2))
                                   (dyn_add_toFrac (MergerArgsWrapper dArgs) (fracB_d g1) (fracB_d g2)),
                 isS_d = dyn_toIsSigned (MergerArgsWrapper dArgs) (isS_d g1) (isS_d g2),
                 QuM_d = dyn_toQuMode (MergerArgsWrapper dArgs) (QuM_d g1) (QuM_d g2),
                 OfM_d = dyn_toOfMode (MergerArgsWrapper dArgs) (OfM_d g1) (OfM_d g2),
                 data_d = 0\<rparr>)"
  by (simp add: Qdiv_def Qdiv_s_div_def Qdiv_dyn_def Qdiv_dyn_div_def Qu_s_direct_def Let_def wrap32_def)

theorem C5_div_by_zero_witness:
  "Qdiv [] \<lparr>fmt_of = \<lparr>intB = 12, fracB = 8, isS = True, QuM = TRN_TCPL, OfM = SAT_TCPL\<rparr>, data = 768\<rparr>
           \<lparr>fmt_of = \<lparr>intB = 12, fracB = 8, isS = True, QuM = TRN_TCPL, OfM = SAT_TCPL\<rparr>, data = 0\<rparr>
     = Inr \<lparr>fmt_of = \<lparr>intB = 12, fracB = 8, isS = True, QuM = TRN_TCPL, OfM = SAT_TCPL\<rparr>, data = 0\<rparr>
   \<and> Qdiv_dyn [FullPrec]
              \<lparr>intB_d = 16, fracB_d = 15, isS_d = True, QuM_d = 99, OfM_d = 77, data_d = 5\<rparr>
              \<lparr>intB_d = 16, fracB_d = 15, isS_d = True, QuM_d = 99, OfM_d = 77, data_d = 0\<rparr>
     = Inr \<lparr>intB_d = 16, fracB_d = 14, isS_d = True, QuM_d = 99, OfM_d = 77, data_d = 0\<rparr>"
proof -
  let ?F = "\<lparr>intB = 12, fracB = 8, isS = True, QuM = TRN_TCPL, OfM = SAT_TCPL\<rparr>"
  let ?g1 = "\<lparr>intB_d = 16, fracB_d = 15, isS_d = True, QuM_d = 99, OfM_d = 77, data_d = 5\<rparr>"
  let ?g2 = "\<lparr>intB_d = 16, fracB_d = 15, isS_d = True, QuM_d = 99, OfM_d = 77, data_d = 0\<rparr>"
  have m: "retType (AddMerger ?F ?F []) = ?F"
    by (simp add: AddMerger_def retType_def fullPrecision_def)
  have d: "capInt (dyn_add_toInt [FullPrec] 16 16) (dyn_add_toFrac [FullPrec] 15 15) = 16"
    "capFrac (dyn_add_toInt [FullPrec] 16 16) (dyn_add_toFrac [FullPrec] 15 15) = 14"
    "dyn_toIsSigned [FullPrec] True True = True"
    "dyn_toQuMode [FullPrec] 99 99 = 99" "dyn_toOfMode [FullPrec] 77 77 = 77"
    by (simp_all add: capInt_def capFrac_def dyn_add_toInt_def dyn_add_toFrac_def fullPrecision_def
        cdiv_def dyn_toIsSigned_def dyn_toQuMode_def dyn_toOfMode_def)
  note c5 = C5_div_by_zero [where ?f2.0 = "\<lparr>fmt_of = ?F, data = 0\<rparr>" and toArgs = "[]"
        and ?f1.0 = "\<lparr>fmt_of = ?F, data = 768\<rparr>" and ?g2.0 = ?g2 and dArgs = "[FullPrec]" and ?g1.0 = ?g1]
  have a: "Qdiv [] \<lparr>fmt_of = ?F, data = 768\<rparr> \<lparr>fmt_of = ?F, data = 0\<rparr> = Inr \<lparr>fmt_of = ?F, data = 0\<rparr>"
    using c5 by (simp add: m Qu_s_static_assert_def)
  have b: "Qdiv_dyn [FullPrec] ?g1 ?g2
     = Inr \<lparr>intB_d = 16, fracB_d = 14, isS_d = True, QuM_d = 99, OfM_d = 77, data_d = 0\<rparr>"
    using c5 by (simp add: d)
  show ?thesis
    using a b by blast
qed

lemma AddMerger_QuM_irrelevant:
  "toInt (AddMerger (F1\<lparr>QuM := q1\<rparr>) (F2\<lparr>QuM := q2\<rparr>) toArgs) = toInt (AddMerger F1 F2 toArgs)"
  "toFrac (AddMerger (F1\<lparr>QuM := q1\<rparr>) (F2\<lparr>QuM := q2\<rparr>) toArgs) = toFrac (AddMerger F1 F2 toArgs)"
  "toIsSigned (AddMerger (F1\<lparr>QuM := q1\<rparr>) (F2\<lparr>QuM := q2\<rparr>) toArgs) = toIsSigned (AddMerger F1 F2 toArgs)"
  "toOfMode (AddMerger (F1\<lparr>QuM := q1\<rparr>) (F2\<lparr>QuM := q2\<rparr>) toArgs) = toOfMode (AddMerger F1 F2 toArgs)"
  by (simp_all add: AddMerger_def Let_def fullPrecision_def)

text \<open>
  Claim C10, as stated, for every pair with nonzero divisor data: the raw result is
  the truncated quotient of the aligned operands, then clamped.  The alignment is done
  in \<^verbatim>\<open>long long\<close>.  256 in format (9,0) over 1 in format (1,30) with the bundle
  (4,27): the numerator 256 is shifted left by 30 + 27 bits, \<open>2\<^sup>6\<^sup>5\<close> wraps to 0 and
  the result is raw 0, where the quotient of the aligned operands, \<open>2\<^sup>3\<^sup>5\<close>, clamps to
  the largest value 2147483647.  -2 in format (31,0) over \<open>-2\<^sup>-\<^sup>3\<^sup>1\<close> in format (0,31) with
  the bundle (0,31): the numerator is \<open>-2\<^sup>6\<^sup>3\<close>, the denominator -1, and the quotient
  does not exist in \<^verbatim>\<open>long long\<close>: the division is undefined and there is no result.
\<close>

theorem C10_counterexample:
  "Qdiv [intBits 4, fracBits 27]
     \<lparr>fmt_of = \<lparr>intB = 9, fracB = 0, isS = True, QuM = TRN_TCPL, OfM = SAT_TCPL\<rparr>, data = 256\<rparr>
     \<lparr>fmt_of = \<lparr>intB = 1, fracB = 30, isS = True, QuM = TRN_TCPL, OfM = SAT_TCPL\<rparr>, data = 1073741824\<rparr>
     = Inr \<lparr>fmt_of = \<lparr>intB = 4, fracB = 27, isS = True, QuM = TRN_TCPL, OfM = SAT_TCPL\<rparr>, data = 0\<rparr>
   \<and> toDouble \<lparr>fmt_of = \<lparr>intB = 9, fracB = 0, isS = True, QuM = TRN_TCPL, OfM = SAT_TCPL\<rparr>, data = 256\<rparr>
     = 256
   \<and> toDouble \<lparr>fmt_of = \<lparr>intB = 1, fracB = 30, isS = True, QuM = TRN_TCPL, OfM = SAT_TCPL\<rparr>,
                data = 1073741824\<rparr> = 1
   \<and> intConvert SAT_TCPL 4 27 True (cdiv (256 * 2 ^ (30 - 0 + 27)) (1073741824 * 2 ^ (30 - 30)))
     = Inr 2147483647
   \<and> Qdiv [intBits 0, fracBits 31]
        \<lparr>fmt_of = \<lparr>intB = 31, fracB = 0, isS = True, QuM = TRN_TCPL, OfM = SAT_TCPL\<rparr>, data = - 2\<rparr>
        \<lparr>fmt_of = \<lparr>intB = 0, fracB = 31, isS = True, QuM = TRN_TCPL, OfM = SAT_TCPL\<rparr>, data = - 1\<rparr>
     = Inl DivisionTrap"
proof -
  have a: "Qdiv [intBits 4, fracBits 27]
     \<lparr>fmt_of = \<lparr>intB = 9, fracB = 0, isS = True, QuM = TRN_TCPL, OfM = SAT_TCPL\<rparr>, data = 256\<rparr>
     \<lparr>fmt_of = \<lparr>intB = 1, fracB = 30, isS = True, QuM = TRN_TCPL, OfM = SAT_TCPL\<rparr>, data = 1073741824\<rparr>
     = Inr \<lparr>fmt_of = \<lparr>intB = 4, fracB = 27, isS = True, QuM = TRN_TCPL, OfM = SAT_TCPL\<rparr>, data = 0\<rparr>"
    by code_simp
  have b: "toDouble \<lparr>fmt_of = \<lparr>intB = 9, fracB = 0, isS = True, QuM = TRN_TCPL, OfM = SAT_TCPL\<rparr>, data = 256\<rparr>
     = 256"
    by code_simp
  have c: "toDouble \<lparr>fmt_of = \<lparr>intB = 1, fracB = 30, isS = True, QuM = TRN_TCPL, OfM = SAT_TCPL\<rparr>,
                data = 1073741824\<rparr> = 1"
    by code_simp
  have d: "intConvert SAT_TCPL 4 27 True (cdiv (256 * 2 ^ (30 - 0 + 27)) (1073741824 * 2 ^ (30 - 30)))
     = Inr 2147483647"
    by code_simp
  have e: "Qdiv [intBits 0, fracBits 31]
        \<lparr>fmt_of = \<lparr>intB = 31, fracB = 0, isS = True, QuM = TRN_TCPL, OfM = SAT_TCPL\<rparr>, data = - 2\<rparr>
        \<lparr>fmt_of = \<lparr>intB = 0, fracB = 31, isS = True, QuM = TRN_TCPL, OfM = SAT_TCPL\<rparr>, data = - 1\<rparr>
     = Inl DivisionTrap"
    by code_simp
  show ?thesis
    using a b c d e by (intro conjI)
qed

text \<open>
  Claim C10, amended: for static operands with nonzero divisor data for which the call
  returns (it compiles and the \<^verbatim>\<open>long long\<close> division is defined), the raw result of
  \<^verbatim>\<open>Qdiv\<close> is the numerator shifted left by \<open>max f1 f2 - f1 + toFrac\<close> bits in 64-bit
  two's complement (\<open>shl64\<close>: bits shifted past bit 63 are lost), divided with
  truncation toward zero by the denominator shifted left by \<open>max f1 f2 - f2\<close> bits in
  the same way, and then passed through \<open>intConvert\<close> of the overflow mode only; the raw
  result is the same for every rounding mode of the operands.
\<close>

theorem C10_div_truncates:
  assumes "Qdiv toArgs f1 f2 = Inr r"
    and "data f2 \<noteq> 0"
    and "0 \<le> toFrac (AddMerger (fmt_of f1) (fmt_of f2) (MergerArgsWrapper toArgs))"
  shows "intConvert (toOfMode (AddMerger (fmt_of f1) (fmt_of f2) (MergerArgsWrapper toArgs)))
           (toInt (AddMerger (fmt_of f1) (fmt_of f2) (MergerArgsWrapper toArgs)))
           (toFrac (AddMerger (fmt_of f1) (fmt_of f2) (MergerArgsWrapper toArgs)))
           (toIsSigned (AddMerger (fmt_of f1) (fmt_of f2) (MergerArgsWrapper toArgs)))
           (cdiv (shl64 (data f1) (max (fracB (fmt_of f1)) (fracB (fmt_of f2)) - fracB (fmt_of f1)
                                   + toFrac (AddMerger (fmt_of f1) (fmt_of f2) (MergerArgsWrapper toArgs))))
                 (shl64 (data f2) (max (fracB (fmt_of f1)) (fracB (fmt_of f2)) - fracB (fmt_of f2))))
         = Inr (data r)
       \<and> (\<forall>q1 q2. ebind (Qdiv toArgs (f1\<lparr>fmt_of := (fmt_of f1)\<lparr>QuM := q1\<rparr>\<rparr>)
                                       (f2\<lparr>fmt_of := (fmt_of f2)\<lparr>QuM := q2\<rparr>\<rparr>)) (\<lambda>r'. Inr (data r'))
                   = Inr (data r))"
proof -
  let ?m = "AddMerger (fmt_of f1) (fmt_of f2) (MergerArgsWrapper toArgs)"
  let ?num = "shl64 (shl64 (data f1) (shiftA (fracB (fmt_of f1)) (fracB (fmt_of f2)))) (toFrac ?m)"
  let ?den = "shl64 (data f2) (shiftB (fracB (fmt_of f1)) (fracB (fmt_of f2)))"
  from assms(1,2) obtain fq iq where
    ok: "\<not> head_is_Qu (MergerArgsWrapper toArgs)" "Qu_s_static_assert (retType ?m)"
    and fq: "div64 ?num ?den = Inr fq"
    and iq: "intConvert (toOfMode ?m) (toInt ?m) (toFrac ?m) (toIsSigned ?m) fq = Inr iq"
    and r: "r = \<lparr>fmt_of = retType ?m, data = wrap32 iq\<rparr>"
    by (auto simp: Qdiv_def Qdiv_s_div_def Qu_s_direct_def Let_def split: if_splits sum.splits)
  have num: "?num = shl64 (data f1) (max (fracB (fmt_of f1)) (fracB (fmt_of f2)) - fracB (fmt_of f1) + toFrac ?m)"
    using assms(3) by (simp add: shl64_shl64 shiftA_max)
  have fq': "fq = cdiv ?num ?den"
    using fq by (auto simp: div64_def split: if_splits)
  have first: "intConvert (toOfMode ?m) (toInt ?m) (toFrac ?m) (toIsSigned ?m)
       (cdiv (shl64 (data f1) (max (fracB (fmt_of f1)) (fracB (fmt_of f2)) - fracB (fmt_of f1) + toFrac ?m))
             (shl64 (data f2) (max (fracB (fmt_of f1)) (fracB (fmt_of f2)) - fracB (fmt_of f2))))
       = Inr (data r)"
    using iq intConvert_wrapped [OF iq] by (simp add: r fq' num shiftB_max)
  have second: "ebind (Qdiv toArgs (f1\<lparr>fmt_of := (fmt_of f1)\<lparr>QuM := q1\<rparr>\<rparr>)
                                       (f2\<lparr>fmt_of := (fmt_of f2)\<lparr>QuM := q2\<rparr>\<rparr>)) (\<lambda>r'. Inr (data r'))
                   = Inr (data r)" for q1 q2
    using ok fq iq assms(2)
    by (simp add: Qdiv_def Qdiv_s_div_def Qu_s_direct_def Let_def ebind_def r
        AddMerger_QuM_irrelevant Qu_s_static_assert_def retType_def)
  show ?thesis
    using first second by blast
qed

theorem C10_div_truncates_witness:
  "Qdiv [] \<lparr>fmt_of = \<lparr>intB = 12, fracB = 8, isS = True, QuM = RND_CONV, OfM = SAT_TCPL\<rparr>, data = - 256\<rparr>
           \<lparr>fmt_of = \<lparr>intB = 12, fracB = 8, isS = True, QuM = RND_CONV, OfM = SAT_TCPL\<rparr>, data = 768\<rparr>
     = Inr \<lparr>fmt_of = \<lparr>intB = 12, fracB = 8, isS = True, QuM = RND_CONV, OfM = SAT_TCPL\<rparr>, data = - 85\<rparr>
   \<and> cdiv (shl64 (- 256) 8) (shl64 768 0) = - 85
   \<and> (shl64 (- 256) 8) div (shl64 768 0) = - 86
   \<and> intConvert SAT_TCPL 12 8 True (cdiv (shl64 (- 256) 8) (shl64 768 0)) = Inr (- 85)"
proof -
  let ?F = "\<lparr>intB = 12, fracB = 8, isS = True, QuM = RND_CONV, OfM = SAT_TCPL\<rparr>"
  let ?r = "\<lparr>fmt_of = ?F, data = - 85\<rparr>"
  have m: "toInt (AddMerger ?F ?F []) = 12" "toFrac (AddMerger ?F ?F []) = 8"
    "toIsSigned (AddMerger ?F ?F []) = True" "toOfMode (AddMerger ?F ?F []) = SAT_TCPL"
    "toQuMode (AddMerger ?F ?F []) = RND_CONV"
    by (simp_all add: AddMerger_def fullPrecision_def)
  have sh: "shl64 (- 256) 8 = - 65536" "shl64 768 0 = 768"
    by (simp_all add: shl64_def wrap64_def)
  have q: "cdiv (- 65536) 768 = - 85" "(- 65536 :: int) div 768 = - 86"
    by (simp_all add: cdiv_def)
  have h1: "Qdiv [] \<lparr>fmt_of = ?F, data = - 256\<rparr> \<lparr>fmt_of = ?F, data = 768\<rparr> = Inr ?r"
    by code_simp
  have h2: "data \<lparr>fmt_of = ?F, data = 768\<rparr> \<noteq> 0"
    by simp
  have h3: "0 \<le> toFrac (AddMerger (fmt_of \<lparr>fmt_of = ?F, data = - 256\<rparr>)
                            (fmt_of \<lparr>fmt_of = ?F, data = 768\<rparr>) (MergerArgsWrapper []))"
    by (simp add: m)
  have "intConvert SAT_TCPL 12 8 True (cdiv (shl64 (- 256) 8) (shl64 768 0)) = Inr (- 85)"
    using C10_div_truncates [OF h1 h2 h3] by (simp add: m)
  then show ?thesis
    using h1 sh q by simp
qed

text \<open>
  Claim C2, as stated: \<^verbatim>\<open>Qmul<FullPrec>\<close> on two (12,8,signed,TCPL,SAT_TCPL) values
  built from 3.0 and 0.5 returns a value of format (24,16).  The operands have raw data
  768 and 128, and the return type \<^verbatim>\<open>Qu_s<intBits<24>, fracBits<16>, ...>\<close> of the static
  product has 40 bits: its \<^verbatim>\<open>static_assert\<close> fails and the call yields no value.
\<close>

theorem C2_counterexample:
  "Qu_s_of_real \<lparr>intB = 12, fracB = 8, isS = True, QuM = TRN_TCPL, OfM = SAT_TCPL\<rparr> 3
     = Inr \<lparr>fmt_of = \<lparr>intB = 12, fracB = 8, isS = True, QuM = TRN_TCPL, OfM = SAT_TCPL\<rparr>, data = 768\<rparr>
   \<and> Qu_s_of_real \<lparr>intB = 12, fracB = 8, isS = True, QuM = TRN_TCPL, OfM = SAT_TCPL\<rparr> (1 / 2)
     = Inr \<lparr>fmt_of = \<lparr>intB = 12, fracB = 8, isS = True, QuM = TRN_TCPL, OfM = SAT_TCPL\<rparr>, data = 128\<rparr>
   \<and> Qmul [FullPrec]
        \<lparr>fmt_of = \<lparr>intB = 12, fracB = 8, isS = True, QuM = TRN_TCPL, OfM = SAT_TCPL\<rparr>, data = 768\<rparr>
        \<lparr>fmt_of = \<lparr>intB = 12, fracB = 8, isS = True, QuM = TRN_TCPL, OfM = SAT_TCPL\<rparr>, data = 128\<rparr>
     = Inl StaticAssertTotalBits"
proof -
  let ?F = "\<lparr>intB = 12, fracB = 8, isS = True, QuM = TRN_TCPL, OfM = SAT_TCPL\<rparr>"
  have a: "Qu_s_of_real ?F 3 = Inr \<lparr>fmt_of = ?F, data = 768\<rparr>"
    by code_simp
  have b: "Qu_s_of_real ?F (1 / 2) = Inr \<lparr>fmt_of = ?F, data = 128\<rparr>"
    by code_simp
  have c: "Qmul [FullPrec] \<lparr>fmt_of = ?F, data = 768\<rparr> \<lparr>fmt_of = ?F, data = 128\<rparr> = Inl StaticAssertTotalBits"
    by code_simp
  show ?thesis
    using a b c by simp
qed

text \<open>
  Claim C2, amended: for these two operands the merged result format of
  \<^verbatim>\<open>Qmul<FullPrec>\<close> after the width cap (\<^verbatim>\<open>MulMerger::resType\<close>) is
  (19,11,signed,TCPL,SAT_TCPL); the dynamic variant returns a value of that format,
  with raw data 3072 and real view 1.5.
\<close>

theorem C2_capped_format:
  "resType (MulMerger \<lparr>intB = 12, fracB = 8, isS = True, QuM = TRN_TCPL, OfM = SAT_TCPL\<rparr>
                      \<lparr>intB = 12, fracB = 8, isS = True, QuM = TRN_TCPL, OfM = SAT_TCPL\<rparr>
                      (MergerArgsWrapper [FullPrec]))
     = \<lparr>intB = 19, fracB = 11, isS = True, QuM = TRN_TCPL, OfM = SAT_TCPL\<rparr>
   \<and> Qmul_dyn [FullPrec]
        (QuDynamic_of \<lparr>fmt_of = \<lparr>intB = 12, fracB = 8, isS = True, QuM = TRN_TCPL, OfM = SAT_TCPL\<rparr>, data = 768\<rparr>)
        (QuDynamic_of \<lparr>fmt_of = \<lparr>intB = 12, fracB = 8, isS = True, QuM = TRN_TCPL, OfM = SAT_TCPL\<rparr>, data = 128\<rparr>)
     = Inr \<lparr>intB_d = 19, fracB_d = 11, isS_d = True, QuM_d = 5, OfM_d = 0, data_d = 3072\<rparr>
   \<and> toDoubleDynamic \<lparr>intB_d = 19, fracB_d = 11, isS_d = True, QuM_d = 5, OfM_d = 0, data_d = 3072\<rparr>
     = 3 / 2"
proof -
  have a: "resType (MulMerger \<lparr>intB = 12, fracB = 8, isS = True, QuM = TRN_TCPL, OfM = SAT_TCPL\<rparr>
                      \<lparr>intB = 12, fracB = 8, isS = True, QuM = TRN_TCPL, OfM = SAT_TCPL\<rparr>
                      (MergerArgsWrapper [FullPrec]))
     = \<lparr>intB = 19, fracB = 11, isS = True, QuM = TRN_TCPL, OfM = SAT_TCPL\<rparr>"
    by code_simp
  have b: "Qmul_dyn [FullPrec]
        (QuDynamic_of \<lparr>fmt_of = \<lparr>intB = 12, fracB = 8, isS = True, QuM = TRN_TCPL, OfM = SAT_TCPL\<rparr>, data = 768\<rparr>)
        (QuDynamic_of \<lparr>fmt_of = \<lparr>intB = 12, fracB = 8, isS = True, QuM = TRN_TCPL, OfM = SAT_TCPL\<rparr>, data = 128\<rparr>)
     = Inr \<lparr>intB_d = 19, fracB_d = 11, isS_d = True, QuM_d = 5, OfM_d = 0, data_d = 3072\<rparr>"
    by code_simp
  have c: "toDoubleDynamic \<lparr>intB_d = 19, fracB_d = 11, isS_d = True, QuM_d = 5, OfM_d = 0, data_d = 3072\<rparr>
     = 3 / 2"
    by (simp add: toDoubleDynamic_def shl32_def wrap32_def)
  show ?thesis
    using a b c by simp
qed

section \<open>Sequencing\<close>

lemma ebind_Inr_iff: "ebind x f = Inr r \<longleftrightarrow> (\<exists>v. x = Inr v \<and> f v = Inr r)"
  by (cases x) (simp_all add: ebind_def)

lemma ebind_Inr [simp]: "ebind (Inr v) f = f v"
  by (simp add: ebind_def)

lemma ebind_Inl [simp]: "ebind (Inl e) f = Inl e"
  by (simp add: ebind_def)

section \<open>The reducer under full precision\<close>

lemma wrap32_id: "- (2 ^ 31) \<le> x \<Longrightarrow> x < 2 ^ 31 \<Longrightarrow> wrap32 x = x"
  unfolding wrap32_def by (rule signed_take_bit_int_eq_self)

lemma wrap64_id: "- (2 ^ 63) \<le> x \<Longrightarrow> x < 2 ^ 63 \<Longrightarrow> wrap64 x = x"
  unfolding wrap64_def by (rule signed_take_bit_int_eq_self)

lemma range_31:
  fixes v :: int
  assumes "n \<le> 31" and "- (2 ^ n) \<le> v" and "v < 2 ^ n"
  shows "- (2 ^ 31) \<le> v" and "v < 2 ^ 31" and "- (2 ^ 63) \<le> v" and "v < 2 ^ 63"
proof -
  have a: "(2::int) ^ n \<le> 2 ^ 31"
    using assms(1) by (intro power_increasing) simp_all
  have b: "(2::int) ^ 31 \<le> 2 ^ 63"
    by (intro power_increasing) simp_all
  show "- (2 ^ 31) \<le> v" "v < 2 ^ 31" "- (2 ^ 63) \<le> v" "v < 2 ^ 63"
    using a b assms(2,3) by linarith+
qed

lemma maxVal_eq:
  assumes "0 \<le> ti + tf" and "ti + tf \<le> 31"
  shows "maxVal ti tf = 2 ^ nat (ti + tf) - 1"
proof -
  let ?n = "nat (ti + tf)"
  have n: "?n \<le> 31" using assms by simp
  have p: "(0::int) < 2 ^ ?n" by simp
  have lo: "- (2 ^ ?n) \<le> (2::int) ^ ?n - 1" and hi: "(2::int) ^ ?n - 1 < 2 ^ ?n"
    using p by linarith+
  have "(0::int) \<le> 2 ^ ?n - 1" using p by linarith
  moreover have "(2::int) ^ ?n - 1 < 2 ^ 64"
  proof -
    have "(2::int) ^ ?n \<le> 2 ^ 64" using n by (intro power_increasing) simp_all
    then show ?thesis by linarith
  qed
  ultimately have "take_bit 64 ((2::int) ^ ?n - 1) = 2 ^ ?n - 1"
    by (intro take_bit_int_eq_self)
  moreover have "wrap64 (2 ^ ?n - 1) = 2 ^ ?n - 1"
    using range_31(3,4) [OF n lo hi] by (rule wrap64_id)
  ultimately show ?thesis
    by (simp add: maxVal_def push_bit_eq_mult)
qed

lemma minVal_eq:
  assumes "0 \<le> ti + tf" and "ti + tf \<le> 31"
  shows "minVal ti tf s = (if s then - (2 ^ nat (ti + tf)) else 0)"
proof -
  let ?n = "nat (ti + tf)"
  have n: "?n \<le> 31" using assms by simp
  have p: "(0::int) < 2 ^ ?n" by simp
  have "- (2 ^ ?n) \<le> - ((2::int) ^ ?n - 1)" "- ((2::int) ^ ?n - 1) < 2 ^ ?n"
    using p by linarith+
  then have 1: "wrap64 (- (2 ^ ?n - 1)) = - (2 ^ ?n - 1)"
    using range_31(3,4) [OF n] by (intro wrap64_id)
  have "- (2 ^ ?n) \<le> - ((2::int) ^ ?n)" "- ((2::int) ^ ?n) < 2 ^ ?n"
    using p by linarith+
  then have "wrap64 (- (2 ^ ?n)) = - (2 ^ ?n)"
    using range_31(3,4) [OF n] by (intro wrap64_id)
  then have 2: "wrap64 (- (2 ^ ?n - 1) - 1) = - (2 ^ ?n)"
    by simp
  show ?thesis
    using 1 2 by (simp add: minVal_def maxVal_eq [OF assms])
qed

lemma wrp_mask_eq: "0 \<le> n \<Longrightarrow> n \<le> 64 \<Longrightarrow> wrp_mask n = mask (nat n)"
proof -
  assume a: "0 \<le> n" "n \<le> 64"
  have "take_bit 64 (mask (nat n) :: int) = mask (nat n)"
    using a by (intro bit_eqI) (auto simp: bit_take_bit_iff bit_mask_iff)
  then show ?thesis
    by (simp add: wrp_mask_def mask_eq_exp_minus_1 push_bit_eq_mult)
qed

lemma wrp_signed_bits:
  fixes w :: int
  assumes "n \<le> 31"
  shows "signed_take_bit 31 (if bit w n
            then (take_bit 64 (signed_take_bit n w) AND mask (Suc n)) OR take_bit 64 (NOT (mask (Suc n)))
            else take_bit 64 (signed_take_bit n w) AND mask (Suc n)) = signed_take_bit n w"
  using assms
  by (intro bit_eqI)
    (auto simp: bit_signed_take_bit_iff bit_and_iff bit_or_iff bit_take_bit_iff bit_mask_iff
      bit_not_iff min_def split: if_splits)

lemma wrp_cond_bits:
  fixes w :: int
  assumes "n \<le> 31"
  shows "drop_bit n (take_bit 64 (signed_take_bit n w) AND mask (Suc n)) \<noteq> 0 \<longleftrightarrow> bit w n"
proof -
  have "drop_bit n (take_bit 64 (signed_take_bit n w) AND mask (Suc n)) = of_bool (bit w n)"
    using assms
    by (intro bit_eqI)
      (auto simp: bit_signed_take_bit_iff bit_and_iff bit_take_bit_iff bit_mask_iff
        bit_drop_bit_eq bit_of_bool_iff min_def split: if_splits)
  then show ?thesis by simp
qed

lemma wrp_unsigned_bits:
  fixes v :: int
  assumes "n \<le> 31" and "0 \<le> v" and "v < 2 ^ n"
  shows "signed_take_bit 31 (take_bit 64 v AND mask n) = v"
proof -
  have v: "take_bit n v = v"
    using assms by (intro take_bit_int_eq_self)
  have "signed_take_bit 31 (take_bit 64 (take_bit n v) AND mask n) = take_bit n v"
    using assms(1)
    by (intro bit_eqI)
      (auto simp: bit_signed_take_bit_iff bit_and_iff bit_take_bit_iff bit_mask_iff min_def)
  then show ?thesis by (simp add: v)
qed

lemma intConvert_id:
  assumes "0 \<le> ti + tf" and "ti + tf \<le> 31" and "exact_ofm om"
    and "if s then - (2 ^ nat (ti + tf)) \<le> v else 0 \<le> v"
    and "v < 2 ^ nat (ti + tf)"
  shows "intConvert om ti tf s v = Inr v"
proof -
  let ?n = "nat (ti + tf)"
  have n: "?n \<le> 31" using assms(1,2) by simp
  have lo: "- (2 ^ ?n) \<le> v"
  proof (cases s)
    case True
    then show ?thesis using assms(4) by simp
  next
    case False
    then have "0 \<le> v" using assms(4) by simp
    moreover have "(0::int) < 2 ^ ?n" by simp
    ultimately show ?thesis by linarith
  qed
  have w: "wrap32 v = v"
    using range_31(1,2) [OF n lo assms(5)] by (rule wrap32_id)
  note mx = maxVal_eq [OF assms(1,2)] and mn = minVal_eq [OF assms(1,2)]
  have c1: "max v (minVal ti tf s) = v"
    using assms(4) by (cases s) (simp_all add: mn max_def)
  have c2: "min v (maxVal ti tf) = v"
    using assms(5) by (simp add: mx min_def)
  have c3: "\<not> (v > maxVal ti tf \<or> v < minVal ti tf s)"
    using assms(4,5) by (cases s) (simp_all add: mx mn)
  consider "om = SAT_TCPL" | "om = SAT_ZERO" | "om = WRP_TCPL"
    using assms(3) by (auto simp: exact_ofm_def)
  then show ?thesis
  proof cases
    case 1
    then show ?thesis by (simp add: c1 c2 w)
  next
    case 2
    then show ?thesis using c3 by (simp add: w)
  next
    case 3
    show ?thesis
    proof (cases s)
      case True
      have v: "signed_take_bit ?n v = v"
        using lo assms(5) by (rule signed_take_bit_int_eq_self)
      have mk: "wrp_mask (ti + tf + 1) = mask (Suc ?n)"
        using assms(1,2) wrp_mask_eq [of "ti + tf + 1"] by (simp add: nat_add_distrib)
      let ?mv = "take_bit 64 (signed_take_bit ?n v) AND mask (Suc ?n)"
      have "intConvert WRP_TCPL ti tf True (signed_take_bit ?n v) = Inr (signed_take_bit ?n v)"
      proof (cases "bit v ?n")
        case True
        have A: "signed_take_bit 31 (?mv OR take_bit 64 (NOT (mask (Suc ?n)))) = signed_take_bit ?n v"
          using wrp_signed_bits [OF n, of v] True by (simp only: if_True)
        have C: "drop_bit ?n ?mv \<noteq> 0"
          using wrp_cond_bits [OF n, of v] True by blast
        show ?thesis
          unfolding intConvert.simps Let_def mk wrap32_def using A C by (simp only: simp_thms if_True if_False)
      next
        case False
        have A: "signed_take_bit 31 ?mv = signed_take_bit ?n v"
          using wrp_signed_bits [OF n, of v] False by (simp only: if_False)
        have C: "\<not> drop_bit ?n ?mv \<noteq> 0"
          using wrp_cond_bits [OF n, of v] False by blast
        show ?thesis
          unfolding intConvert.simps Let_def mk wrap32_def using A C by (simp only: simp_thms if_True if_False)
      qed
      then show ?thesis
        using 3 True by (simp add: v)
    next
      case False
      then have "0 \<le> v" using assms(4) by simp
      then have "wrap32 (take_bit 64 v AND mask ?n) = v"
        unfolding wrap32_def using assms(5) by (intro wrp_unsigned_bits [OF n])
      moreover have "wrp_mask (ti + tf) = mask ?n"
        using assms(1,2) by (intro wrp_mask_eq) simp_all
      ultimately show ?thesis
        using 3 False by simp
    qed
  qed
qed

lemma fracConvert_same:
  assumes "- (2 ^ 63) \<le> v" and "v < 2 ^ 63"
  shows "fracConvert q f f v = v"
proof -
  have w: "wrap64 v = v"
    using assms by (rule wrap64_id)
  have m: "wrap64 (- wrap64 (- v)) = v"
    using w by (simp add: wrap64_def signed_take_bit_minus)
  show ?thesis
    by (cases q) (simp_all add: shl64_def shr64_def shiftRight_def w m)
qed

lemma aligned_bound:
  fixes d :: int
  assumes "d < 2 ^ p" and "if s then - (2 ^ p) \<le> d else 0 \<le> d" and "p + k \<le> M"
  shows "d * 2 ^ k < 2 ^ M" and "if s then - (2 ^ M) \<le> d * 2 ^ k else 0 \<le> d * 2 ^ k"
proof -
  have mono: "(2::int) ^ (p + k) \<le> 2 ^ M"
    using assms(3) by (intro power_increasing) simp_all
  have "d * 2 ^ k < 2 ^ p * 2 ^ k"
    using assms(1) by simp
  then have "d * 2 ^ k < 2 ^ (p + k)"
    by (simp add: power_add)
  then show "d * 2 ^ k < 2 ^ M"
    using mono by linarith
  show "if s then - (2 ^ M) \<le> d * 2 ^ k else 0 \<le> d * 2 ^ k"
  proof (cases s)
    case True
    then have "- (2 ^ p) \<le> d" using assms(2) by simp
    then have "- (2 ^ p) * 2 ^ k \<le> d * 2 ^ k"
      by (intro mult_right_mono) simp_all
    then have "- (2 ^ (p + k)) \<le> d * 2 ^ k"
      by (simp add: power_add)
    then have "- (2 ^ M) \<le> d * 2 ^ k"
      using mono by linarith
    then show ?thesis
      using True by simp
  next
    case False
    then have "0 \<le> d" using assms(2) by simp
    then show ?thesis
      using False by simp
  qed
qed

lemma shl32_exact:
  assumes "0 \<le> k" and "- (2 ^ 31) \<le> d * 2 ^ nat k" and "d * 2 ^ nat k < 2 ^ 31"
  shows "shl32 d k = d * 2 ^ nat k"
  using wrap32_id [OF assms(2,3)] by (simp add: shl32_def push_bit_eq_mult)

lemma shl32_one: "0 \<le> f \<Longrightarrow> f \<le> 30 \<Longrightarrow> shl32 1 f = 2 ^ nat f"
proof -
  assume a: "0 \<le> f" "f \<le> 30"
  have m: "(2::int) ^ nat f \<le> 2 ^ 30"
    using a by (intro power_increasing) simp_all
  have p: "(0::int) < 2 ^ nat f" and q: "(0::int) < 2 ^ 31" and r: "(2::int) ^ 30 < 2 ^ 31"
    by simp_all
  have A: "- (2 ^ 31) \<le> (2::int) ^ nat f"
    using p q by linarith
  have B: "(2::int) ^ nat f < 2 ^ 31"
    using m r by linarith
  have "- (2 ^ 31) \<le> 1 * (2::int) ^ nat f" "1 * (2::int) ^ nat f < 2 ^ 31"
    using A B by (simp_all only: mult_1)
  then show ?thesis
    using shl32_exact [OF a(1), of 1] by simp
qed

lemma toDouble_eq:
  "0 \<le> fracB (fmt_of x) \<Longrightarrow> fracB (fmt_of x) \<le> 30 \<Longrightarrow>
   toDouble x = real_of_int (data x) / 2 ^ nat (fracB (fmt_of x))"
  by (simp add: toDouble_def shl32_one)

lemma operand_aligned:
  assumes "valid_Qu a" and "fracB (fmt_of a) \<le> f" and "intB (fmt_of a) + f \<le> int M" and "M \<le> 30"
  shows "shl32 (data a) (f - fracB (fmt_of a)) = data a * 2 ^ nat (f - fracB (fmt_of a))"
    and "- (2 ^ M) \<le> data a * 2 ^ nat (f - fracB (fmt_of a))"
    and "data a * 2 ^ nat (f - fracB (fmt_of a)) < 2 ^ M"
    and "\<not> isS (fmt_of a) \<Longrightarrow> 0 \<le> data a * 2 ^ nat (f - fracB (fmt_of a))"
proof -
  let ?p = "nat (intB (fmt_of a) + fracB (fmt_of a))"
  let ?k = "nat (f - fracB (fmt_of a))"
  let ?d = "data a * 2 ^ ?k"
  have r1: "data a < 2 ^ ?p"
    and r2: "if isS (fmt_of a) then - (2 ^ ?p) \<le> data a else 0 \<le> data a"
    using assms(1) by (simp_all add: valid_Qu_def in_range_def)
  have pk: "?p + ?k \<le> M"
    using assms unfolding valid_Qu_def by linarith
  note ab = aligned_bound [OF r1 r2 pk]
  show U: "?d < 2 ^ M"
    using ab(1) .
  show P: "0 \<le> ?d" if "\<not> isS (fmt_of a)"
    using ab(2) that by simp
  show L: "- (2 ^ M) \<le> ?d"
  proof (cases "isS (fmt_of a)")
    case True
    then show ?thesis using ab(2) by simp
  next
    case False
    have "(0::int) < 2 ^ M" by simp
    then show ?thesis using P [OF False] by linarith
  qed
  have "M \<le> 31" using assms(4) by simp
  then have "- (2 ^ 31) \<le> ?d" "?d < 2 ^ 31"
    using range_31(1,2) [OF _ L U] by simp_all
  moreover have "0 \<le> f - fracB (fmt_of a)"
    using assms(2) by simp
  ultimately show "shl32 (data a) (f - fracB (fmt_of a)) = ?d"
    by (intro shl32_exact)
qed

lemma AddMerger_FullPrec:
  "toInt (AddMerger F1 F2 [FullPrec]) = max (intB F1) (intB F2) + 1"
  "toFrac (AddMerger F1 F2 [FullPrec]) = max (fracB F1) (fracB F2)"
  "toIsSigned (AddMerger F1 F2 [FullPrec]) = (isS F1 \<or> isS F2)"
  "toOfMode (AddMerger F1 F2 [FullPrec]) = (if OfM F1 = OfM F2 then OfM F1 else SAT_TCPL)"
  by (simp_all add: AddMerger_def fullPrecision_def defaultOfMode_def Let_def)

lemma Qadd_FullPrec_exact:
  assumes va: "valid_Qu a" and vb: "valid_Qu b" and r: "Qadd [FullPrec] a b = Inr r"
  shows "valid_Qu r \<and> toDouble r = toDouble a + toDouble b"
proof -
  let ?m = "AddMerger (fmt_of a) (fmt_of b) [FullPrec]"
  let ?fa = "fracB (fmt_of a)" and ?fb = "fracB (fmt_of b)"
  let ?ia = "intB (fmt_of a)" and ?ib = "intB (fmt_of b)"
  let ?f = "max ?fa ?fb" and ?i = "max ?ia ?ib + 1"
  let ?s = "isS (fmt_of a) \<or> isS (fmt_of b)"
  let ?da = "data a * 2 ^ nat (?f - ?fa)" and ?db = "data b * 2 ^ nat (?f - ?fb)"
  let ?S = "?da + ?db"
  note mg = AddMerger_FullPrec [of "fmt_of a" "fmt_of b"]
  have nn: "0 \<le> ?ia" "0 \<le> ?fa" "0 \<le> ?ib" "0 \<le> ?fb"
    using va vb by (simp_all add: valid_Qu_def)
  from r have sa: "Qu_s_static_assert (retType ?m)"
    by (auto simp: Qadd_def Qadd_s_add_def Let_def split: if_splits)
  then have tot: "?i + ?f \<le> 31"
    by (simp add: Qu_s_static_assert_def retType_def mg)
  define M where "M = nat (max ?ia ?ib + ?f)"
  have M30: "M \<le> 30" and Mi: "int M = max ?ia ?ib + ?f"
    using tot nn by (simp_all add: M_def)
  define N where "N = Suc M"
  have N: "nat (?i + ?f) = N"
    using nn by (simp add: M_def N_def)
  note oa = operand_aligned [OF va, of ?f M]
  note ob = operand_aligned [OF vb, of ?f M]
  have a1: "shl32 (data a) (shiftA ?fa ?fb) = ?da" and a2: "- (2 ^ M) \<le> ?da" and a3: "?da < 2 ^ M"
    and a4: "\<not> isS (fmt_of a) \<Longrightarrow> 0 \<le> ?da"
    using oa M30 Mi by (simp_all add: shiftA_max)
  have b1: "shl32 (data b) (shiftB ?fa ?fb) = ?db" and b2: "- (2 ^ M) \<le> ?db" and b3: "?db < 2 ^ M"
    and b4: "\<not> isS (fmt_of b) \<Longrightarrow> 0 \<le> ?db"
    using ob M30 Mi by (simp_all add: shiftB_max)
  have SL: "- (2 ^ N) \<le> ?S" and SU: "?S < 2 ^ N"
    using a2 a3 b2 b3 by (simp_all add: N_def)
  have SP: "0 \<le> ?S" if "\<not> ?s"
    using that a4 b4 by simp
  have SM: "N \<le> 31"
    using M30 by (simp add: N_def)
  have w64: "wrap64 ?S = ?S"
    using range_31(3,4) [OF SM SL SU] by (rule wrap64_id)
  have fc: "fracConvert q ?f ?f ?S = ?S" for q
    using range_31(3,4) [OF SM SL SU] by (rule fracConvert_same)
  have ex: "exact_ofm (toOfMode ?m)"
    using va vb by (simp add: mg valid_Qu_def exact_ofm_def)
  have rng: "if ?s then - (2 ^ N) \<le> ?S else 0 \<le> ?S"
    using SL SP by (cases ?s) (simp_all only: if_True if_False simp_thms)
  have tot0: "0 \<le> ?i + ?f"
    using nn by linarith
  have ic: "intConvert (toOfMode ?m) ?i ?f ?s ?S = Inr ?S"
    using tot0 tot ex rng SU unfolding N [symmetric] by (rule intConvert_id)
  have w32: "wrap32 ?S = ?S"
    using range_31(1,2) [OF SM SL SU] by (rule wrap32_id)
  have res: "r = \<lparr>fmt_of = retType ?m, data = ?S\<rparr>"
    using r sa ic
    by (simp add: Qadd_def Qadd_s_add_def Let_def a1 b1 w64 fc mg Qu_s_direct_def w32)
  have fr: "fracB (fmt_of r) = ?f" "intB (fmt_of r) = ?i" "isS (fmt_of r) = ?s"
    "OfM (fmt_of r) = toOfMode ?m" "data r = ?S"
    by (simp_all add: res retType_def mg)
  have f30: "?f \<le> 30" "0 \<le> ?f" "?fa \<le> 30" "?fb \<le> 30"
    using tot nn by linarith+
  have i0: "0 \<le> ?i"
    using nn by linarith
  have ir: "in_range (fmt_of r) (data r)"
    unfolding in_range_def fr N using rng SU by (rule conjI)
  have v: "valid_Qu r"
    unfolding valid_Qu_def using i0 f30(2) tot ir ex by (simp only: fr simp_thms)
  have pa: "(2::real) ^ nat ?f = 2 ^ nat (?f - ?fa) * 2 ^ nat ?fa"
    using nn by (simp add: power_add [symmetric] nat_add_distrib [symmetric])
  have pb: "(2::real) ^ nat ?f = 2 ^ nat (?f - ?fb) * 2 ^ nat ?fb"
    using nn by (simp add: power_add [symmetric] nat_add_distrib [symmetric])
  have "toDouble r = real_of_int ?S / 2 ^ nat ?f"
    using f30 by (simp add: toDouble_eq fr)
  also have "\<dots> = real_of_int ?da / 2 ^ nat ?f + real_of_int ?db / 2 ^ nat ?f"
    by (simp add: add_divide_distrib)
  also have "real_of_int ?da / 2 ^ nat ?f = real_of_int (data a) / 2 ^ nat ?fa"
    by (simp add: pa)
  also have "real_of_int ?db / 2 ^ nat ?f = real_of_int (data b) / 2 ^ nat ?fb"
    by (simp add: pb)
  finally have "toDouble r = toDouble a + toDouble b"
    using f30 nn by (simp add: toDouble_eq)
  then show ?thesis
    using v by simp
qed

lemma add_pairs_sum:
  fixes val :: "'a \<Rightarrow> real"
  assumes step: "\<And>a b r. ok a \<Longrightarrow> ok b \<Longrightarrow> add [t] a b = Inr r \<Longrightarrow> ok r \<and> val r = val a + val b"
  shows "list_all ok qs \<Longrightarrow> add_pairs add t qs = Inr ps \<Longrightarrow>
         list_all ok ps
         \<and> sum_list (map val ps) = sum_list (map val (take (2 * (length qs div 2)) qs))"
proof (induction qs arbitrary: ps rule: induct_list012)
  case 1
  then show ?case by simp
next
  case (2 x)
  then show ?case by simp
next
  case (3 x y rest)
  from "3.prems"(2) obtain s ss where s: "add [t] x y = Inr s"
    and ss: "add_pairs add t rest = Inr ss" and ps: "ps = s # ss"
    by (auto simp: ebind_Inr_iff)
  have sx: "ok s \<and> val s = val x + val y"
    using "3.prems"(1) by (intro step [OF _ _ s]) simp_all
  have "list_all ok ss
         \<and> sum_list (map val ss) = sum_list (map val (take (2 * (length rest div 2)) rest))"
    using "3.prems"(1) by (intro "3.IH"(1) [OF _ ss]) simp
  then show ?case
    using sx by (simp add: ps)
qed

lemma take_even_all: "even (length qs) \<Longrightarrow> take (2 * (length qs div 2)) qs = qs"
  by simp

lemma take_odd_butlast: "odd (length qs) \<Longrightarrow> take (2 * (length qs div 2)) qs = butlast qs"
proof -
  assume o: "odd (length qs)"
  then have "2 * (length qs div 2) = length qs - 1"
    by presburger
  then show ?thesis
    by (simp add: butlast_conv_take)
qed

lemma reduce_impl_sum:
  fixes val :: "'a \<Rightarrow> real"
  assumes step: "\<And>l a b r. ok a \<Longrightarrow> ok b \<Longrightarrow> add [ReducerTypeSelector Args l] a b = Inr r
                   \<Longrightarrow> ok r \<and> val r = val a + val b"
  shows "list_all ok qs \<Longrightarrow> reduce_impl add Args layer qs = Inr r \<Longrightarrow>
         ok r \<and> val r = sum_list (map val qs)"
proof (induction "length qs" arbitrary: qs layer r rule: less_induct)
  case less
  show ?case
  proof (cases qs)
    case Nil
    then show ?thesis using less.prems by simp
  next
    case (Cons q1 qs1)
    show ?thesis
    proof (cases qs1)
      case Nil
      then show ?thesis using less.prems Cons by simp
    next
      case (Cons q2 qs2)
      let ?t = "ReducerTypeSelector Args layer"
      have qs: "qs = q1 # q2 # qs2"
        using \<open>qs = q1 # qs1\<close> Cons by simp
      from less.prems(2) obtain ps where ps: "add_pairs add ?t qs = Inr ps"
        by (auto simp: qs split: sum.splits)
      have len: "length ps = length qs div 2"
        using ps by (rule add_pairs_length)
      have lt: "length ps < length qs"
        using len qs by simp
      have pss: "list_all ok ps
         \<and> sum_list (map val ps) = sum_list (map val (take (2 * (length qs div 2)) qs))"
        using step less.prems(1) ps by (rule add_pairs_sum)
      show ?thesis
      proof (cases "even (length qs)")
        case True
        then have rec: "reduce_impl add Args (layer + 1) ps = Inr r"
          using less.prems(2) ps by (simp add: qs)
        have "ok r \<and> val r = sum_list (map val ps)"
          using pss by (intro less.hyps [OF lt _ rec]) simp
        then show ?thesis
          using pss take_even_all [OF True] by simp
      next
        case False
        then obtain res where rec: "reduce_impl add Args (layer + 1) ps = Inr res"
          and fin: "add [?t] res (last qs) = Inr r"
          using less.prems(2) ps by (auto simp: qs split: sum.splits)
        have r1: "ok res \<and> val res = sum_list (map val ps)"
          using pss by (intro less.hyps [OF lt _ rec]) simp
        have "qs \<noteq> []" using qs by simp
        then have lastok: "ok (last qs)"
          using less.prems(1) by (simp add: list_all_iff)
        have r2: "ok r \<and> val r = val res + val (last qs)"
          using r1 lastok fin by (intro step) simp_all
        have "sum_list (map val qs) = sum_list (map val (butlast qs)) + val (last qs)"
        proof -
          have "qs = butlast qs @ [last qs]"
            using \<open>qs \<noteq> []\<close> by simp
          then have "map val qs = map val (butlast qs) @ [val (last qs)]"
            by (metis list.simps(8,9) map_append)
          then show ?thesis by simp
        qed
        then show ?thesis
          using r1 r2 pss take_odd_butlast [of qs] False by simp
      qed
    qed
  qed
qed

lemma Qadd_layer_FullPrec:
  assumes ne: "As \<noteq> []" and fp: "\<forall>t\<in>set As. t = FullPrec"
    and va: "valid_Qu a" and vb: "valid_Qu b"
    and r: "Qadd [ReducerTypeSelector As l] a b = Inr r"
  shows "valid_Qu r \<and> toDouble r = toDouble a + toDouble b"
proof -
  have "ReducerTypeSelector As l \<in> set As"
    using ne by (simp add: ReducerTypeSelector_def)
  then have "ReducerTypeSelector As l = FullPrec"
    using fp by blast
  then show ?thesis
    using Qadd_FullPrec_exact [OF va vb] r by simp
qed

text \<open>
  Claim C7, as stated, holds for every tuple of inputs.  Two operands of format
  (16,15): the static sum has the return type \<^verbatim>\<open>Qu_s<intBits<17>, fracBits<15>, ...>\<close>
  of 32 bits, whose \<^verbatim>\<open>static_assert\<close> fails, so there is no result; the dynamic sum
  is stored in the capped format (16,14) and the last bit of \<open>2\<^sup>-\<^sup>1\<^sup>5 + 0\<close> is lost.
  Two operands of format (1,0) with overflow mode SAT_SMGN holding -2 (the value a
  SAT_TCPL scalar of the same widths hands over unchanged): the sum -4 is the least
  value of the result format (2,0) and the symmetric saturation returns -3.
\<close>

theorem C7_counterexample:
  "Qreduce [FullPrec]
     [\<lparr>fmt_of = \<lparr>intB = 16, fracB = 15, isS = True, QuM = TRN_TCPL, OfM = SAT_TCPL\<rparr>, data = 1\<rparr>,
      \<lparr>fmt_of = \<lparr>intB = 16, fracB = 15, isS = True, QuM = TRN_TCPL, OfM = SAT_TCPL\<rparr>, data = 0\<rparr>]
     = Inl StaticAssertTotalBits
   \<and> Qreduce_dyn [FullPrec]
        [\<lparr>intB_d = 16, fracB_d = 15, isS_d = True, QuM_d = 5, OfM_d = 0, data_d = 1\<rparr>,
         \<lparr>intB_d = 16, fracB_d = 15, isS_d = True, QuM_d = 5, OfM_d = 0, data_d = 0\<rparr>]
     = Inr \<lparr>intB_d = 16, fracB_d = 14, isS_d = True, QuM_d = 5, OfM_d = 0, data_d = 0\<rparr>
   \<and> toDoubleDynamic \<lparr>intB_d = 16, fracB_d = 15, isS_d = True, QuM_d = 5, OfM_d = 0, data_d = 1\<rparr>
       + toDoubleDynamic \<lparr>intB_d = 16, fracB_d = 15, isS_d = True, QuM_d = 5, OfM_d = 0, data_d = 0\<rparr>
     = 1 / 32768
   \<and> toDoubleDynamic \<lparr>intB_d = 16, fracB_d = 14, isS_d = True, QuM_d = 5, OfM_d = 0, data_d = 0\<rparr> = 0
   \<and> Qu_s_from \<lparr>intB = 1, fracB = 0, isS = True, QuM = TRN_TCPL, OfM = SAT_SMGN\<rparr>
        \<lparr>fmt_of = \<lparr>intB = 1, fracB = 0, isS = True, QuM = TRN_TCPL, OfM = SAT_TCPL\<rparr>, data = - 2\<rparr>
     = Inr \<lparr>fmt_of = \<lparr>intB = 1, fracB = 0, isS = True, QuM = TRN_TCPL, OfM = SAT_SMGN\<rparr>, data = - 2\<rparr>
   \<and> Qreduce [FullPrec]
        [\<lparr>fmt_of = \<lparr>intB = 1, fracB = 0, isS = True, QuM = TRN_TCPL, OfM = SAT_SMGN\<rparr>, data = - 2\<rparr>,
         \<lparr>fmt_of = \<lparr>intB = 1, fracB = 0, isS = True, QuM = TRN_TCPL, OfM = SAT_SMGN\<rparr>, data = - 2\<rparr>]
     = Inr \<lparr>fmt_of = \<lparr>intB = 2, fracB = 0, isS = True, QuM = TRN_TCPL, OfM = SAT_SMGN\<rparr>, data = - 3\<rparr>
   \<and> toDouble \<lparr>fmt_of = \<lparr>intB = 1, fracB = 0, isS = True, QuM = TRN_TCPL, OfM = SAT_SMGN\<rparr>, data = - 2\<rparr>
     = - 2
   \<and> toDouble \<lparr>fmt_of = \<lparr>intB = 2, fracB = 0, isS = True, QuM = TRN_TCPL, OfM = SAT_SMGN\<rparr>, data = - 3\<rparr>
     = - 3"
proof -
  have e: "Qu_s_from \<lparr>intB = 1, fracB = 0, isS = True, QuM = TRN_TCPL, OfM = SAT_SMGN\<rparr>
        \<lparr>fmt_of = \<lparr>intB = 1, fracB = 0, isS = True, QuM = TRN_TCPL, OfM = SAT_TCPL\<rparr>, data = - 2\<rparr>
     = Inr \<lparr>fmt_of = \<lparr>intB = 1, fracB = 0, isS = True, QuM = TRN_TCPL, OfM = SAT_SMGN\<rparr>, data = - 2\<rparr>"
    by code_simp
  have f: "Qreduce [FullPrec]
        [\<lparr>fmt_of = \<lparr>intB = 1, fracB = 0, isS = True, QuM = TRN_TCPL, OfM = SAT_SMGN\<rparr>, data = - 2\<rparr>,
         \<lparr>fmt_of = \<lparr>intB = 1, fracB = 0, isS = True, QuM = TRN_TCPL, OfM = SAT_SMGN\<rparr>, data = - 2\<rparr>]
     = Inr \<lparr>fmt_of = \<lparr>intB = 2, fracB = 0, isS = True, QuM = TRN_TCPL, OfM = SAT_SMGN\<rparr>, data = - 3\<rparr>"
    by code_simp
  have g: "toDouble \<lparr>fmt_of = \<lparr>intB = 1, fracB = 0, isS = True, QuM = TRN_TCPL, OfM = SAT_SMGN\<rparr>, data = - 2\<rparr>
     = - 2"
    by code_simp
  have h: "toDouble \<lparr>fmt_of = \<lparr>intB = 2, fracB = 0, isS = True, QuM = TRN_TCPL, OfM = SAT_SMGN\<rparr>, data = - 3\<rparr>
     = - 3"
    by code_simp
  have a: "Qreduce [FullPrec]
     [\<lparr>fmt_of = \<lparr>intB = 16, fracB = 15, isS = True, QuM = TRN_TCPL, OfM = SAT_TCPL\<rparr>, data = 1\<rparr>,
      \<lparr>fmt_of = \<lparr>intB = 16, fracB = 15, isS = True, QuM = TRN_TCPL, OfM = SAT_TCPL\<rparr>, data = 0\<rparr>]
     = Inl StaticAssertTotalBits"
    by code_simp
  have b: "Qreduce_dyn [FullPrec]
        [\<lparr>intB_d = 16, fracB_d = 15, isS_d = True, QuM_d = 5, OfM_d = 0, data_d = 1\<rparr>,
         \<lparr>intB_d = 16, fracB_d = 15, isS_d = True, QuM_d = 5, OfM_d = 0, data_d = 0\<rparr>]
     = Inr \<lparr>intB_d = 16, fracB_d = 14, isS_d = True, QuM_d = 5, OfM_d = 0, data_d = 0\<rparr>"
    by code_simp
  have c: "toDoubleDynamic \<lparr>intB_d = 16, fracB_d = 15, isS_d = True, QuM_d = 5, OfM_d = 0, data_d = 1\<rparr>
       + toDoubleDynamic \<lparr>intB_d = 16, fracB_d = 15, isS_d = True, QuM_d = 5, OfM_d = 0, data_d = 0\<rparr>
     = 1 / 32768"
    by code_simp
  have d: "toDoubleDynamic \<lparr>intB_d = 16, fracB_d = 14, isS_d = True, QuM_d = 5, OfM_d = 0, data_d = 0\<rparr> = 0"
    by code_simp
  show ?thesis
    using a b c d e f g h by (intro conjI)
qed

text \<open>
  Claim C7, amended: when every layer's bundle is \<^verbatim>\<open>FullPrec\<close>, every input holds a
  value of its own format (total width at most 31, overflow mode SAT_TCPL, SAT_ZERO or
  WRP_TCPL) and the instantiation exists (every intermediate sum format passes the
  31-bit \<^verbatim>\<open>static_assert\<close>), the result is a value of its format and its real view is
  the exact sum of the real views of the inputs.
\<close>

theorem C7_FullPrec_sum_exact:
  assumes "ReducerInputHelper Args \<noteq> []"
    and "\<forall>t\<in>set (ReducerInputHelper Args). t = FullPrec"
    and "list_all valid_Qu qs"
    and "Qreduce Args qs = Inr r"
  shows "valid_Qu r \<and> toDouble r = sum_list (map toDouble qs)"
proof -
  have step: "\<And>l a b r. valid_Qu a \<Longrightarrow> valid_Qu b
                \<Longrightarrow> Qadd [ReducerTypeSelector (ReducerInputHelper Args) l] a b = Inr r
                \<Longrightarrow> valid_Qu r \<and> toDouble r = toDouble a + toDouble b"
    using assms(1,2) by (rule Qadd_layer_FullPrec)
  have red: "reduce_impl Qadd (ReducerInputHelper Args) 0 qs = Inr r"
    using assms(4) by (simp add: Qreduce_def)
  show ?thesis
    using step assms(3) red by (rule reduce_impl_sum)
qed

theorem C7_FullPrec_sum_exact_witness:
  "Qreduce [FullPrec]
     [\<lparr>fmt_of = \<lparr>intB = 4, fracB = 2, isS = True, QuM = TRN_TCPL, OfM = SAT_TCPL\<rparr>, data = 5\<rparr>,
      \<lparr>fmt_of = \<lparr>intB = 4, fracB = 2, isS = True, QuM = TRN_TCPL, OfM = SAT_TCPL\<rparr>, data = - 3\<rparr>,
      \<lparr>fmt_of = \<lparr>intB = 3, fracB = 3, isS = True, QuM = TRN_TCPL, OfM = SAT_TCPL\<rparr>, data = 7\<rparr>]
     = Inr \<lparr>fmt_of = \<lparr>intB = 6, fracB = 3, isS = True, QuM = TRN_TCPL, OfM = SAT_TCPL\<rparr>, data = 11\<rparr>
   \<and> toDouble \<lparr>fmt_of = \<lparr>intB = 6, fracB = 3, isS = True, QuM = TRN_TCPL, OfM = SAT_TCPL\<rparr>, data = 11\<rparr>
     = sum_list (map toDouble
        [\<lparr>fmt_of = \<lparr>intB = 4, fracB = 2, isS = True, QuM = TRN_TCPL, OfM = SAT_TCPL\<rparr>, data = 5\<rparr>,
         \<lparr>fmt_of = \<lparr>intB = 4, fracB = 2, isS = True, QuM = TRN_TCPL, OfM = SAT_TCPL\<rparr>, data = - 3\<rparr>,
         \<lparr>fmt_of = \<lparr>intB = 3, fracB = 3, isS = True, QuM = TRN_TCPL, OfM = SAT_TCPL\<rparr>, data = 7\<rparr>])"
proof -
  let ?F = "\<lparr>intB = 4, fracB = 2, isS = True, QuM = TRN_TCPL, OfM = SAT_TCPL\<rparr>"
  let ?G = "\<lparr>intB = 3, fracB = 3, isS = True, QuM = TRN_TCPL, OfM = SAT_TCPL\<rparr>"
  let ?qs = "[\<lparr>fmt_of = ?F, data = 5\<rparr>, \<lparr>fmt_of = ?F, data = - 3\<rparr>, \<lparr>fmt_of = ?G, data = 7\<rparr>]"
  let ?r = "\<lparr>fmt_of = \<lparr>intB = 6, fracB = 3, isS = True, QuM = TRN_TCPL, OfM = SAT_TCPL\<rparr>, data = 11\<rparr>"
  have h1: "ReducerInputHelper [FullPrec] \<noteq> []"
    by code_simp
  have h2: "\<forall>t\<in>set (ReducerInputHelper [FullPrec]). t = FullPrec"
    by (simp add: ReducerInputHelper_def)
  have h3: "list_all valid_Qu ?qs"
    by code_simp
  have h4: "Qreduce [FullPrec] ?qs = Inr ?r"
    by code_simp
  show ?thesis
    using C7_FullPrec_sum_exact [OF h1 h2 h3 h4] h4 by (intro conjI) simp_all
qed

section \<open>The unmatched element of an odd layer\<close>





text \<open>
  The tensor form of the reducer reads and writes every element through \<^verbatim>\<open>get\<close>, so it
  cannot be instantiated for any vector.
\<close>

lemma get_no_instance [simp]: "get T idx = Inl NoInstantiation"
  by (simp add: get_def absoluteIndex_def)

lemma assign_get_no_instance [simp]: "assign_get T idx v = Inl NoInstantiation"
  by (simp add: assign_get_def absoluteIndex_def)

lemma vec_pairs_no_instance:
  "Is \<noteq> [] \<Longrightarrow> vec_pairs type quants Is res = Inl NoInstantiation"
  by (cases Is) simp_all

lemma reduce_impl_vec_no_instance: "\<exists>e. reduce_impl_vec Args layer quants bufs = Inl e"
proof (cases "dims quants")
  case Nil
  then show ?thesis
    by (subst reduce_impl_vec.simps) simp
next
  case (Cons len ds)
  show ?thesis
  proof (cases "ds = []")
    case False
    then show ?thesis
      using Cons by (subst reduce_impl_vec.simps) (simp split: list.split)
  next
    case True
    show ?thesis
    proof (cases "res_elem_type (ReducerTypeSelector Args layer) (tfmt quants) len")
      case (Inl e)
      then show ?thesis
        using Cons True by (subst reduce_impl_vec.simps) simp
    next
      case (Inr R)
      have "2 \<le> len \<Longrightarrow> [0 ..< len div 2] \<noteq> []"
        by simp
      then show ?thesis
        using Cons True Inr
        by (subst reduce_impl_vec.simps) (simp add: vec_pairs_no_instance)
    qed
  qed
qed

section \<open>The Cholesky kernels\<close>

lemma Qpotrf_no_instance:
  assumes "dims A = [n, n]" and "0 < n"
  shows "Qpotrf rsqrtFunc A = Inl NoInstantiation"
proof -
  have "[0 ..< n] = 0 # [1 ..< n]"
    using assms(2) by (simp add: upt_conv_Cons)
  then show ?thesis
    using assms(1) by (simp add: Qpotrf_def loop_inner_def)
qed

lemma Qpotrs_no_instance:
  assumes "dims L = [n, n]" and "0 < n"
  shows "Qpotrs L b = Inl NoInstantiation"
proof -
  have "[0 ..< n] = 0 # [1 ..< n]"
    using assms(2) by (simp add: upt_conv_Cons)
  then show ?thesis
    using assms(1) by (simp add: Qpotrs_def execute_forward_def scale_entry_def)
qed



section \<open>The general matrix multiply\<close>

lemma Qgemul_loop_j_no_instance:
  "\<exists>e. Qgemul_loop_j tA tB addArgs mulArgs R K c a b i (j # js) st = Inl e"
proof (cases "Qgemul_loop_k tA tB mulArgs R a b i j [0 ..< K] st")
  case (Inl e)
  then show ?thesis by simp
next
  case (Inr st1)
  obtain e where
    "reduce_impl_vec (ReducerInputHelper addArgs) 0 \<lparr>tfmt = R, dims = [K], elems = vecC st1\<rparr>
       (res_bufs st1) = Inl e"
    using reduce_impl_vec_no_instance by blast
  then show ?thesis
    using Inr by simp
qed

lemma Qgemul_loop_i_no_instance:
  "\<exists>e. Qgemul_loop_i tA tB addArgs mulArgs R K c a b (i # is) (j # js) st = Inl e"
proof -
  obtain e where "Qgemul_loop_j tA tB addArgs mulArgs R K c a b i (j # js) st = Inl e"
    using Qgemul_loop_j_no_instance by blast
  then show ?thesis by simp
qed

text \<open>
  No call on a destination with at least one element returns: the store into
  \<^verbatim>\<open>C[i, j]\<close> takes its value from \<^verbatim>\<open>Qreduce\<close> on the tensor \<^verbatim>\<open>vecC\<close>.
\<close>

lemma Qgemul_s_execute_no_instance:
  assumes "dims (heap st ! c) = [rowC, colC]" and "0 < rowC" and "0 < colC"
  shows "\<exists>e. Qgemul_s_execute isTransposedA isTransposedB addArgs mulArgs c a b st = Inl e"
proof (cases "Qgemul_s_execute isTransposedA isTransposedB addArgs mulArgs c a b st")
  case (Inl e)
  then show ?thesis by simp
next
  case (Inr st')
  then obtain R K Is Js rowA colA rowB colB where
    lp: "Qgemul_loop_i isTransposedA isTransposedB addArgs mulArgs R K c a b Is Js st = Inr st'"
    and Is: "Is = [0 ..< (if isTransposedA then colA else rowA)]"
    and Js: "Js = [0 ..< (if isTransposedB then rowB else colB)]"
    and sa: "Qgemul_static_assert isTransposedA isTransposedB rowA colA rowB colB rowC colC"
    using assms(1)
    by (auto simp: Qgemul_s_execute_def Let_def split: list.splits targ.splits if_splits)
  have "(if isTransposedA then colA else rowA) = rowC"
    and "(if isTransposedB then rowB else colB) = colC"
    using sa by (auto simp: Qgemul_static_assert_def)
  then have "Is = 0 # [1 ..< rowC]" and "Js = 0 # [1 ..< colC]"
    using Is Js assms(2,3) by (simp_all add: upt_conv_Cons)
  then show ?thesis
    using lp Qgemul_loop_i_no_instance [of isTransposedA isTransposedB addArgs mulArgs R K c a b
        0 "[1 ..< rowC]" 0 "[1 ..< colC]" st]
    by simp
qed


text \<open>
  The statements of the products loop, evaluated alone on the same operands: they write
  the static member \<^verbatim>\<open>vecC\<close>, which held 0, 0.
\<close>

lemma Qgemul_loop_k_writes_vecC:
  "map_sum id vecC
     (Qgemul_loop_k False False [TypeList []]
        \<lparr>intB = 8, fracB = 0, isS = True, QuM = TRN_TCPL, OfM = SAT_TCPL\<rparr> 1 2 0 0 [0 ..< 2]
        \<lparr>heap = [\<lparr>tfmt = \<lparr>intB = 8, fracB = 0, isS = True, QuM = TRN_TCPL, OfM = SAT_TCPL\<rparr>,
                  dims = [1, 1], elems = [0]\<rparr>,
                 \<lparr>tfmt = \<lparr>intB = 8, fracB = 0, isS = True, QuM = TRN_TCPL, OfM = SAT_TCPL\<rparr>,
                  dims = [1, 2], elems = [2, 3]\<rparr>,
                 \<lparr>tfmt = \<lparr>intB = 8, fracB = 0, isS = True, QuM = TRN_TCPL, OfM = SAT_TCPL\<rparr>,
                  dims = [2, 1], elems = [4, 5]\<rparr>],
         vecC = [0, 0], res_bufs = unwritten\<rparr>)
   = Inr [8, 15]"
  by code_simp

end
